theory Spec2Isabelle
  imports Main
begin

section \<open>Disablers: \<^verbatim>\<open>robocop/utils/disablers.py\<close>\<close>

text \<open>
  Text is a list of characters (code points below 256); a line number is a Python
  integer. A file is what iterating over the opened file yields: its lines, each with
  its line terminator. \<open>Fails\<close> is an \<^verbatim>\<open>OSError\<close>: raised by \<^verbatim>\<open>open\<close> (no line was
  read) or by a read, after the lines given. \<open>Undecodable\<close> is a file whose bytes do
  not decode: a read raises \<^verbatim>\<open>UnicodeDecodeError\<close>, which is a \<^verbatim>\<open>ValueError\<close> and not an
  \<^verbatim>\<open>OSError\<close>, after the lines given.
\<close>

datatype source_file = File "string list" | Fails "string list" | Undecodable "string list"

text \<open>The exception that leaves the constructor of the finder.\<close>

datatype uncaught = UnicodeDecodeError

subsection \<open>The directive pattern\<close>

text \<open>
  \<^verbatim>\<open>robocop: (?P<disabler>disable|enable)=?(?P<rules>[\w\-,]*)\<close>.
  \<^verbatim>\<open>\w\<close> on a \<^verbatim>\<open>str\<close> pattern is an alphanumeric character or the underscore; below
  256 the alphanumeric characters outside ASCII are the Latin-1 letters, the
  superscript digits and the vulgar fractions.
\<close>

definition is_word_char :: "char \<Rightarrow> bool" where
  "is_word_char c =
     (let n = (of_char c :: nat)
      in (48 \<le> n \<and> n \<le> 57) \<or> (65 \<le> n \<and> n \<le> 90) \<or> n = 95 \<or> (97 \<le> n \<and> n \<le> 122)
         \<or> n = 170 \<or> n = 178 \<or> n = 179 \<or> n = 181 \<or> n = 185 \<or> n = 186
         \<or> (188 \<le> n \<and> n \<le> 190) \<or> (192 \<le> n \<and> n \<le> 214)
         \<or> (216 \<le> n \<and> n \<le> 246) \<or> (248 \<le> n \<and> n \<le> 255))"

definition is_rules_char :: "char \<Rightarrow> bool" where
  "is_rules_char c = (is_word_char c \<or> c = CHR ''-'' \<or> c = CHR '','')"

definition startswith :: "string \<Rightarrow> string \<Rightarrow> bool" where
  "startswith s p = (take (length p) s = p)"

text \<open>
  The groups \<open>(disabler, rules)\<close> of a match that starts at the first character.
  After the keyword the optional \<^verbatim>\<open>=\<close> and the greedy character class cannot fail,
  so the match is decided by the literal prefix.
\<close>

definition rules_group :: "string \<Rightarrow> string" where
  "rules_group s =
     takeWhile is_rules_char (case s of [] \<Rightarrow> [] | c # cs \<Rightarrow> if c = CHR ''='' then cs else c # cs)"

definition match_here :: "string \<Rightarrow> (string \<times> string) option" where
  "match_here s =
     (if startswith s ''robocop: disable'' then Some (''disable'', rules_group (drop 16 s))
      else if startswith s ''robocop: enable'' then Some (''enable'', rules_group (drop 15 s))
      else None)"

text \<open>\<^verbatim>\<open>disabler_pattern.search\<close>: the match at the leftmost position that has one.\<close>

fun search :: "string \<Rightarrow> (string \<times> string) option" where
  "search [] = match_here []"
| "search (c # cs) = (case match_here (c # cs) of Some m \<Rightarrow> Some m | None \<Rightarrow> search cs)"

text \<open>\<^verbatim>\<open>str.split(sep)\<close> for a one-character separator.\<close>

fun split :: "char \<Rightarrow> string \<Rightarrow> string list" where
  "split sep [] = [[]]"
| "split sep (c # cs) =
     (if c = sep then [] # split sep cs
      else (case split sep cs of [] \<Rightarrow> [[c]] | w # ws \<Rightarrow> (c # w) # ws))"

text \<open>
  \<^verbatim>\<open>statement, comment = line.split('#', maxsplit=1)\<close>, for a line that contains
  \<^verbatim>\<open>#\<close>: what is before the first \<^verbatim>\<open>#\<close> and what is after it.
\<close>

definition statement_of :: "string \<Rightarrow> string" where
  "statement_of line = takeWhile (\<lambda>c. c \<noteq> CHR ''#'') line"

definition comment_of :: "string \<Rightarrow> string" where
  "comment_of line = drop 1 (dropWhile (\<lambda>c. c \<noteq> CHR ''#'') line)"

subsection \<open>The state\<close>

text \<open>
  \<^verbatim>\<open>self.rules = defaultdict(DisablersInFile().copy)\<close>: one \<^verbatim>\<open>DisablersInFile\<close> is
  created, and the factory of the dictionary is the bound \<^verbatim>\<open>copy\<close> of that instance.
  \<^verbatim>\<open>copy.copy\<close> is shallow: the new instance gets the attribute values of the old one,
  so its \<^verbatim>\<open>lines\<close> and \<^verbatim>\<open>blocks\<close> are references to the very set and list of the first
  instance. The model keeps the set objects and the list objects in a store, and an
  instance holds their addresses.
\<close>

type_synonym addr = nat

record DisablersInFile =
  lastblock :: int
  lines :: addr
  blocks :: addr

record DisablersFinder =
  file_disabled :: bool
  any_disabler :: bool
  rules :: "(string \<times> DisablersInFile) list"
  default_factory :: DisablersInFile
  set_objs :: "addr \<Rightarrow> int set"
  list_objs :: "addr \<Rightarrow> (int \<times> int) list"

record msg =
  line :: int
  msg_id :: string
  name :: string

definition copy :: "DisablersInFile \<Rightarrow> DisablersInFile" where
  "copy d = \<lparr>lastblock = lastblock d, lines = lines d, blocks = blocks d\<rparr>"

definition contains :: "DisablersFinder \<Rightarrow> string \<Rightarrow> bool" where
  "contains st rule = (map_of (rules st) rule \<noteq> None)"

text \<open>
  \<^verbatim>\<open>self.rules[rule]\<close> on the \<^verbatim>\<open>defaultdict\<close>: a missing key is inserted (at the end
  of the dictionary's order) with what the factory returns.
\<close>

definition getitem :: "DisablersFinder \<Rightarrow> string \<Rightarrow> DisablersInFile \<times> DisablersFinder" where
  "getitem st rule =
     (case map_of (rules st) rule of
        Some d \<Rightarrow> (d, st)
      | None \<Rightarrow> (let d = copy (default_factory st)
                 in (d, st\<lparr>rules := rules st @ [(rule, d)]\<rparr>)))"

definition set_lastblock :: "DisablersFinder \<Rightarrow> string \<Rightarrow> int \<Rightarrow> DisablersFinder" where
  "set_lastblock st rule v =
     st\<lparr>rules := map (\<lambda>(k, d). if k = rule then (k, d\<lparr>lastblock := v\<rparr>) else (k, d)) (rules st)\<rparr>"

subsection \<open>Building the state\<close>

definition add_inline_disabler :: "DisablersFinder \<Rightarrow> string \<Rightarrow> int \<Rightarrow> DisablersFinder" where
  "add_inline_disabler st rule lineno =
     (let (d, st1) = getitem st rule
      in st1\<lparr>set_objs := (set_objs st1)(lines d := insert lineno (set_objs st1 (lines d)))\<rparr>)"

definition start_block :: "DisablersFinder \<Rightarrow> string \<Rightarrow> int \<Rightarrow> DisablersFinder" where
  "start_block st rule lineno =
     (let (d, st1) = getitem st rule
      in if lastblock d = - 1 then set_lastblock st1 rule lineno else st1)"

text \<open>
  \<^verbatim>\<open>_end_block\<close> and \<^verbatim>\<open>_end_all_blocks\<close> call each other, one level deep:
  \<^verbatim>\<open>_end_all_blocks\<close> calls \<^verbatim>\<open>_end_block\<close> for keys other than \<^verbatim>\<open>'all'\<close> only, where
  its last \<^verbatim>\<open>if\<close> is false. \<open>close_block\<close> is the second \<^verbatim>\<open>if\<close> of \<^verbatim>\<open>_end_block\<close>,
  \<open>end_block_rule\<close> is \<^verbatim>\<open>_end_block\<close> for a key other than \<^verbatim>\<open>'all'\<close>.
\<close>

definition close_block :: "DisablersFinder \<Rightarrow> string \<Rightarrow> int \<Rightarrow> DisablersFinder" where
  "close_block st rule lineno =
     (let (d, st1) = getitem st rule
      in if lastblock d \<noteq> - 1
         then (let block = (lastblock d, lineno); st2 = set_lastblock st1 rule (- 1)
               in st2\<lparr>list_objs := (list_objs st2)(blocks d := list_objs st2 (blocks d) @ [block])\<rparr>)
         else st1)"

definition end_block_rule :: "DisablersFinder \<Rightarrow> string \<Rightarrow> int \<Rightarrow> DisablersFinder" where
  "end_block_rule st rule lineno =
     (if \<not> contains st rule then st else close_block st rule lineno)"

definition end_all_blocks :: "DisablersFinder \<Rightarrow> int \<Rightarrow> DisablersFinder" where
  "end_all_blocks st lineno =
     fold (\<lambda>rule s. if rule = ''all'' then s else end_block_rule s rule lineno)
          (map fst (rules st)) st"

definition end_block :: "DisablersFinder \<Rightarrow> string \<Rightarrow> int \<Rightarrow> DisablersFinder" where
  "end_block st rule lineno =
     (if \<not> contains st rule then st
      else (let st1 = close_block st rule lineno
            in if rule = ''all'' then end_all_blocks st1 lineno else st1))"

definition is_file_disabled :: "DisablersFinder \<Rightarrow> int \<Rightarrow> bool" where
  "is_file_disabled st last_line =
     (if \<not> contains st ''all'' then False
      else (let (d, st1) = getitem st ''all''
            in if length (list_objs st1 (blocks d)) \<noteq> 1 then False
               else hd (list_objs st1 (blocks d)) = (0, last_line)))"

definition parse_line :: "DisablersFinder \<Rightarrow> string \<Rightarrow> int \<Rightarrow> DisablersFinder" where
  "parse_line st ln lineno =
     (let statement = statement_of ln; comment = comment_of ln
      in case search comment of
           None \<Rightarrow> st
         | Some (disabler, rules_str) \<Rightarrow>
            (let rls = (if rules_str = [] then [''all''] else split (CHR '','') rules_str);
                 block = (statement = [])
             in if disabler = ''disable''
                then fold (\<lambda>rule s. if block then start_block s rule lineno
                                     else add_inline_disabler s rule lineno) rls st
                else if disabler = ''enable'' \<and> block
                then fold (\<lambda>rule s. end_block s rule lineno) rls st
                else st))"

text \<open>The loop of \<^verbatim>\<open>_parse_file\<close>, \<^verbatim>\<open>enumerate\<close> counting from \<open>lineno\<close>.\<close>

fun parse_lines :: "DisablersFinder \<Rightarrow> string list \<Rightarrow> int \<Rightarrow> DisablersFinder" where
  "parse_lines st [] lineno = st"
| "parse_lines st (ln # lns) lineno =
     parse_lines (if CHR ''#'' \<in> set ln then parse_line st ln lineno else st) lns (lineno + 1)"

text \<open>
  \<^verbatim>\<open>_parse_file\<close>. After the loop \<^verbatim>\<open>lineno\<close> is the number of the last line, or \<open>-1\<close>
  for a file with no line. An \<^verbatim>\<open>OSError\<close> leaves the \<^verbatim>\<open>with\<close> block where it is
  raised and is swallowed: the three statements after the loop are not run. Any other
  exception is not caught by \<^verbatim>\<open>except OSError\<close> and leaves \<^verbatim>\<open>_parse_file\<close>.
\<close>

fun parse_file :: "DisablersFinder \<Rightarrow> source_file \<Rightarrow> uncaught + DisablersFinder" where
  "parse_file st (File lns) =
     (let st1 = parse_lines st lns 1;
          lineno = (if lns = [] then - 1 else int (length lns));
          st2 = end_block st1 ''all'' lineno;
          st3 = st2\<lparr>file_disabled := is_file_disabled st2 lineno\<rparr>
      in Inr (st3\<lparr>any_disabler := (length (rules st3) \<noteq> 0)\<rparr>))"
| "parse_file st (Fails lns) = Inr (parse_lines st lns 1)"
| "parse_file st (Undecodable lns) = Inl UnicodeDecodeError"

text \<open>
  \<^verbatim>\<open>DisablersFinder.__init__\<close>. The one call of \<^verbatim>\<open>DisablersInFile()\<close> creates the set
  object and the list object, both at address 0 of their stores. The constructor
  returns the finder, or it raises what \<^verbatim>\<open>_parse_file\<close> raises.
\<close>

definition DisablersFinder_init :: "source_file \<Rightarrow> uncaught + DisablersFinder" where
  "DisablersFinder_init source =
     parse_file \<lparr>file_disabled = False, any_disabler = False, rules = [],
                 default_factory = \<lparr>lastblock = - 1, lines = 0, blocks = 0\<rparr>,
                 set_objs = (\<lambda>a. {}), list_objs = (\<lambda>a. [])\<rparr> source"

subsection \<open>Queries\<close>

definition is_line_disabled :: "DisablersFinder \<Rightarrow> int \<Rightarrow> string \<Rightarrow> bool \<times> DisablersFinder" where
  "is_line_disabled st ln rule =
     (let (d, st1) = getitem st rule
      in if ln \<in> set_objs st1 (lines d) then (True, st1)
         else (list_ex (\<lambda>block. fst block \<le> ln \<and> ln \<le> snd block) (list_objs st1 (blocks d)), st1))"

definition is_msg_disabled :: "DisablersFinder \<Rightarrow> msg \<Rightarrow> bool \<times> DisablersFinder" where
  "is_msg_disabled st m =
     (if \<not> any_disabler st then (False, st)
      else (let (r1, st1) = (if contains st ''all'' then is_line_disabled st (line m) ''all''
                             else (False, st))
            in if r1 then (True, st1)
               else (let (r2, st2) = (if contains st1 (msg_id m)
                                      then is_line_disabled st1 (line m) (msg_id m)
                                      else (False, st1))
                     in if r2 then (True, st2)
                        else (let (r3, st3) = (if contains st2 (name m)
                                               then is_line_disabled st2 (line m) (name m)
                                               else (False, st2))
                              in if r3 then (True, st3) else (False, st3)))))"


section \<open>Reports: \<^verbatim>\<open>robocop/reports/reports.py\<close>\<close>

text \<open>
  \<^verbatim>\<open>message_counter\<close> is a \<^verbatim>\<open>defaultdict(int)\<close>: a dictionary in insertion order, from
  the full name of a rule to a count. The key is what \<^verbatim>\<open>message.get_fullname()\<close>
  returned; that method is not part of the files at hand and its result is an argument.
\<close>

definition add_message :: "(string \<times> nat) list \<Rightarrow> string \<Rightarrow> (string \<times> nat) list" where
  "add_message message_counter fullname =
     (case map_of message_counter fullname of
        None \<Rightarrow> message_counter @ [(fullname, 1)]
      | Some c \<Rightarrow> map (\<lambda>(k, v). if k = fullname then (k, v + 1) else (k, v)) message_counter)"

text \<open>Python's \<^verbatim>\<open><\<close> on \<^verbatim>\<open>str\<close>: lexicographic on code points, a proper prefix is smaller.\<close>

fun str_less :: "string \<Rightarrow> string \<Rightarrow> bool" where
  "str_less [] [] = False"
| "str_less [] (d # t) = True"
| "str_less (c # s) [] = False"
| "str_less (c # s) (d # t) = ((of_char c :: nat) < of_char d \<or> (c = d \<and> str_less s t))"

text \<open>
  \<^verbatim>\<open>max(items, key=itemgetter(0))\<close> on a list \<open>first # rest\<close>: the first item whose key no
  other exceeds.
\<close>

fun max_by_name :: "string \<times> nat \<Rightarrow> (string \<times> nat) list \<Rightarrow> string \<times> nat" where
  "max_by_name best [] = best"
| "max_by_name best (x # xs) = max_by_name (if str_less (fst best) (fst x) then x else best) xs"

text \<open>\<^verbatim>\<open>str(count)\<close>, and the format specification \<^verbatim>\<open>{message:{width}}\<close> of a string.\<close>

fun str_of_nat :: "nat \<Rightarrow> string" where
  "str_of_nat n =
     (if n < 10 then [''0123456789'' ! n]
      else str_of_nat (n div 10) @ [''0123456789'' ! (n mod 10)])"

definition ljust :: "string \<Rightarrow> nat \<Rightarrow> string" where
  "ljust s width = s @ replicate (width - length s) CHR '' ''"

fun join :: "string \<Rightarrow> string list \<Rightarrow> string" where
  "join sep [] = []"
| "join sep [s] = s"
| "join sep (s # t # rest) = s @ sep @ join sep (t # rest)"

text \<open>
  \<^verbatim>\<open>RulesByIdReport.get_report\<close>. \<^verbatim>\<open>sorted(..., key=itemgetter(1), reverse=True)\<close> is
  stable: items of equal count keep their order, which is what the stable \<open>sort_key\<close>
  does on the negated count.
\<close>

definition get_report :: "(string \<times> nat) list \<Rightarrow> string" where
  "get_report message_counter =
     (let message_counter_ordered = sort_key (\<lambda>(message, count). - int count) message_counter;
          report = ''\<newline>Issues by ids:\<newline>''
      in case message_counter_ordered of
           [] \<Rightarrow> report @ ''No issues found\<newline>''
         | first # rest \<Rightarrow>
             (let longest_name = length (fst (max_by_name first rest))
              in report @ join ''\<newline>''
                   (map (\<lambda>(message, count). ljust message longest_name @ '' : '' @ str_of_nat count)
                        message_counter_ordered)))"

datatype report =
    RulesByIdReport "(string \<times> nat) list"
  | RulesBySeverityReport "(string \<times> nat) list"

text \<open>The attribute \<^verbatim>\<open>name\<close> that each \<^verbatim>\<open>__init__\<close> sets.\<close>

fun report_name :: "report \<Rightarrow> string" where
  "report_name (RulesByIdReport message_counter) = ''rules_by_id''"
| "report_name (RulesBySeverityReport severity_counter) = ''rules_by_error_type''"

section \<open>The linter: \<^verbatim>\<open>robocop/run.py\<close>\<close>

text \<open>
  A rule, and a message made from a rule, with the attributes that \<^verbatim>\<open>run.py\<close> reads.
  \<open>name'\<close> and \<open>line'\<close> are the attributes \<^verbatim>\<open>name\<close> and \<^verbatim>\<open>line\<close>, \<open>rules'\<close> below is
  \<^verbatim>\<open>Robocop.rules\<close>: the plain names are taken by the records of the disablers.
  \<open>cls\<close> is the class of a checker, which stands for the identity of the object.
\<close>

record Rule =
  rule_id :: string
  name' :: string
  enabled :: bool
  severity :: string
  source :: string
  line' :: int
  col :: int
  desc :: string

record checker =
  cls :: string
  rules_map :: "(string \<times> Rule) list"
  disabled :: bool
  checker_source :: string
  parse_only_section_not_allowed :: bool

datatype error =
    DuplicatedRuleError string string checker checker
  | ConfigGeneralError string
  | AttributeError string string
  | ValueError string
  | HookError string
  | Uncaught uncaught

type_synonym registry = "string \<rightharpoonup> Rule \<times> checker"

record Robocop =
  checkers :: "checker list"
  rules' :: registry
  reports :: "report list"
  disabler :: "DisablersFinder option"
  out :: "Rule list"

subsection \<open>Registering a checker\<close>

text \<open>
  \<^verbatim>\<open>any_rule_enabled\<close>; \<^verbatim>\<open>self.config.is_rule_enabled\<close> belongs to the configuration and
  is an argument.
\<close>

definition any_rule_enabled :: "(Rule \<Rightarrow> bool) \<Rightarrow> checker \<Rightarrow> bool \<times> checker" where
  "any_rule_enabled is_rule_enabled c =
     (let c1 = c\<lparr>rules_map := map (\<lambda>(nm, rule). (nm, rule\<lparr>enabled := is_rule_enabled rule\<rparr>))
                                   (rules_map c)\<rparr>
      in (list_ex (\<lambda>(nm, m). enabled m) (rules_map c1), c1))"

text \<open>The loop of \<^verbatim>\<open>register_checker\<close> over \<^verbatim>\<open>checker.rules_map.items()\<close>.\<close>

fun register_rules :: "registry \<Rightarrow> checker \<Rightarrow> (string \<times> Rule) list \<Rightarrow> error + registry" where
  "register_rules rs c [] = Inr rs"
| "register_rules rs c ((rule_name, rule) # rest) =
     (case rs rule_name of
        Some (r, checker_prev) \<Rightarrow> Inl (DuplicatedRuleError ''name'' rule_name c checker_prev)
      | None \<Rightarrow>
         (case rs (rule_id rule) of
            Some (r, checker_prev) \<Rightarrow> Inl (DuplicatedRuleError ''id'' (rule_id rule) c checker_prev)
          | None \<Rightarrow> register_rules (rs(rule_name \<mapsto> (rule, c), rule_id rule \<mapsto> (rule, c))) c rest))"

definition register_checker :: "(Rule \<Rightarrow> bool) \<Rightarrow> Robocop \<Rightarrow> checker \<Rightarrow> error + Robocop" where
  "register_checker is_rule_enabled st c =
     (let (any_enabled, c1) = any_rule_enabled is_rule_enabled c;
          c2 = (if \<not> any_enabled then c1\<lparr>disabled := True\<rparr> else c1)
      in case register_rules (rules' st) c2 (rules_map c2) of
           Inl e \<Rightarrow> Inl e
         | Inr rs \<Rightarrow> Inr (st\<lparr>rules' := rs, checkers := checkers st @ [c2]\<rparr>))"

subsection \<open>Configuring rules and reports\<close>

text \<open>
  The methods of a rule and of a checker that \<^verbatim>\<open>configure_checkers_or_reports\<close> calls
  are not part of the files at hand; they are arguments. \<open>get_configurable\<close> returns
  \<open>None\<close> or a triple whose second component is the name of the checker's attribute
  and whose third is the conversion of the value. \<open>checker_configure\<close> tells whether
  \<^verbatim>\<open>checker.configure\<close> raised; what it assigns is an attribute of the checker that
  this model does not hold.
\<close>

record 'v hooks =
  change_severity :: "Rule \<Rightarrow> string \<Rightarrow> error + Rule"
  get_configurable :: "Rule \<Rightarrow> string \<Rightarrow> (string \<times> string \<times> (string \<Rightarrow> error + 'v)) option"
  checker_configure :: "checker \<Rightarrow> string \<Rightarrow> 'v \<Rightarrow> error option"

text \<open>
  \<^verbatim>\<open>report.configure(param, value, *values)\<close>: neither report class defines the
  method, so the attribute lookup raises.
\<close>

fun report_configure :: "report \<Rightarrow> string \<Rightarrow> string \<Rightarrow> string list \<Rightarrow> error + report" where
  "report_configure (RulesByIdReport message_counter) param val vals =
     Inl (AttributeError ''RulesByIdReport'' ''configure'')"
| "report_configure (RulesBySeverityReport severity_counter) param val vals =
     Inl (AttributeError ''RulesBySeverityReport'' ''configure'')"

fun configure_reports ::
  "report list \<Rightarrow> string \<Rightarrow> string \<Rightarrow> string \<Rightarrow> string list \<Rightarrow> error + report list" where
  "configure_reports [] rule_or_report param val vals = Inr []"
| "configure_reports (report # rest) rule_or_report param val vals =
     (if report_name report = rule_or_report
      then (case report_configure report param val vals of
              Inl e \<Rightarrow> Inl e
            | Inr report1 \<Rightarrow>
               (case configure_reports rest rule_or_report param val vals of
                  Inl e \<Rightarrow> Inl e
                | Inr rest1 \<Rightarrow> Inr (report1 # rest1)))
      else (case configure_reports rest rule_or_report param val vals of
              Inl e \<Rightarrow> Inl e
            | Inr rest1 \<Rightarrow> Inr (report # rest1)))"

text \<open>The body of the loop of \<^verbatim>\<open>configure_checkers_or_reports\<close>, for one directive.\<close>

definition configure :: "'v hooks \<Rightarrow> Robocop \<Rightarrow> string \<Rightarrow> error + Robocop" where
  "configure h st config =
     (if count_list config CHR '':'' < 2
      then Inl (ConfigGeneralError (''Provided invalid config: '' @ [CHR 0x27] @ config @ [CHR 0x27]
                  @ '' (general pattern: <rule>:<param>:<value>)''))
      else (case split CHR '':'' config of
              rule_or_report # param # val # vals \<Rightarrow>
                (case rules' st rule_or_report of
                   Some (m, chk) \<Rightarrow>
                     if param = ''severity''
                     then (case change_severity h m val of
                             Inl e \<Rightarrow> Inl e
                           | Inr m1 \<Rightarrow> Inr (st\<lparr>rules' := (rules' st)(rule_or_report \<mapsto> (m1, chk))\<rparr>))
                     else (case get_configurable h m param of
                             None \<Rightarrow>
                               Inl (ConfigGeneralError (''Provided param '' @ [CHR 0x27] @ param
                                      @ [CHR 0x27] @ '' for rule '' @ [CHR 0x27] @ rule_or_report
                                      @ [CHR 0x27] @ '' does not exists''))
                           | Some (nm, attr, conv) \<Rightarrow>
                               (case conv val of
                                  Inl e \<Rightarrow> Inl e
                                | Inr v \<Rightarrow>
                                   (case checker_configure h chk attr v of
                                      Some e \<Rightarrow> Inl e
                                    | None \<Rightarrow> Inr st)))
                 | None \<Rightarrow>
                     if list_ex (\<lambda>report. rule_or_report = report_name report) (reports st)
                     then (case configure_reports (reports st) rule_or_report param val vals of
                             Inl e \<Rightarrow> Inl e
                           | Inr reports1 \<Rightarrow> Inr (st\<lparr>reports := reports1\<rparr>))
                     else Inl (ConfigGeneralError (''Provided rule or report '' @ [CHR 0x27]
                                 @ rule_or_report @ [CHR 0x27] @ '' does not exists'')))
            | _ \<Rightarrow> Inl (ValueError ''not enough values to unpack'')))"

fun configure_checkers_or_reports :: "'v hooks \<Rightarrow> Robocop \<Rightarrow> string list \<Rightarrow> error + Robocop" where
  "configure_checkers_or_reports h st [] = Inr st"
| "configure_checkers_or_reports h st (config # configs) =
     (case configure h st config of
        Inl e \<Rightarrow> Inl e
      | Inr st1 \<Rightarrow> configure_checkers_or_reports h st1 configs)"

subsection \<open>The scan\<close>

datatype FileType = INIT | RESOURCE | GENERAL

record RobotFile =
  type' :: FileType
  scanned_with_type :: FileType

text \<open>
  What the scan uses and the files at hand do not define:
  \<^item> \<open>read_file\<close>: what opening and reading a path yields;
  \<^item> \<open>get_fullname\<close> of a message, used by the report by id;
  \<^item> \<open>scan_file\<close>: the messages that a checker passes to \<^verbatim>\<open>report\<close>, in order, when it
    scans the model that the parser of the given type makes of the given file;
  \<^item> \<open>imports_of\<close>: the files that the import statements of a file refer to.
\<close>

record collaborators =
  read_file :: "string \<Rightarrow> source_file"
  get_fullname :: "Rule \<Rightarrow> string"
  scan_file :: "checker \<Rightarrow> FileType \<Rightarrow> string \<Rightarrow> Rule list"
  imports_of :: "string \<Rightarrow> string list"

text \<open>\<^verbatim>\<open>register_disablers\<close>: what the constructor raises leaves the method.\<close>

definition register_disablers :: "collaborators \<Rightarrow> Robocop \<Rightarrow> string \<Rightarrow> error + Robocop" where
  "register_disablers env st file =
     (case DisablersFinder_init (read_file env file) of
        Inl e \<Rightarrow> Inl (Uncaught e)
      | Inr d \<Rightarrow> Inr (st\<lparr>disabler := Some d\<rparr>))"

text \<open>\<^verbatim>\<open>report.add_message(rule_msg)\<close> of the two report classes.\<close>

fun report_add_message :: "collaborators \<Rightarrow> report \<Rightarrow> Rule \<Rightarrow> report" where
  "report_add_message env (RulesByIdReport message_counter) m =
     RulesByIdReport (add_message message_counter (get_fullname env m))"
| "report_add_message env (RulesBySeverityReport severity_counter) m =
     RulesBySeverityReport (add_message severity_counter (severity m))"

text \<open>
  \<^verbatim>\<open>self.disabler.is_rule_disabled(rule_msg)\<close>: the class \<^verbatim>\<open>DisablersFinder\<close> defines
  \<^verbatim>\<open>is_msg_disabled\<close> and \<^verbatim>\<open>is_line_disabled\<close> and no method \<^verbatim>\<open>is_rule_disabled\<close>, so the
  attribute lookup raises.
\<close>

definition is_rule_disabled :: "DisablersFinder \<Rightarrow> Rule \<Rightarrow> error + bool" where
  "is_rule_disabled d rule_msg = Inl (AttributeError ''DisablersFinder'' ''is_rule_disabled'')"

text \<open>
  \<^verbatim>\<open>Robocop.report\<close>. \<open>out\<close> collects the messages handed to \<^verbatim>\<open>log_message\<close>, each of
  which writes one line. Before the first \<^verbatim>\<open>register_disablers\<close> the disabler is
  \<^verbatim>\<open>None\<close>, which has no attribute.
\<close>

definition report :: "collaborators \<Rightarrow> Robocop \<Rightarrow> Rule \<Rightarrow> error + Robocop" where
  "report env st rule_msg =
     (if \<not> enabled rule_msg then Inr st
      else (case disabler st of
              None \<Rightarrow> Inl (AttributeError ''NoneType'' ''is_rule_disabled'')
            | Some d \<Rightarrow>
                (case is_rule_disabled d rule_msg of
                   Inl e \<Rightarrow> Inl e
                 | Inr suppressed \<Rightarrow>
                     if suppressed then Inr st
                     else Inr (st\<lparr>reports := map (\<lambda>r. report_add_message env r rule_msg) (reports st),
                                   out := out st @ [rule_msg]\<rparr>))))"

fun report_each :: "collaborators \<Rightarrow> Robocop \<Rightarrow> Rule list \<Rightarrow> error + Robocop" where
  "report_each env st [] = Inr st"
| "report_each env st (m # ms) =
     (case report env st m of Inl e \<Rightarrow> Inl e | Inr st1 \<Rightarrow> report_each env st1 ms)"

text \<open>\<^verbatim>\<open>Path.name\<close>, \<^verbatim>\<open>Path.suffix\<close>, \<^verbatim>\<open>str.lower\<close> and \<^verbatim>\<open>in\<close> on strings.\<close>

definition path_name :: "string \<Rightarrow> string" where
  "path_name p = rev (takeWhile (\<lambda>c. c \<noteq> CHR ''/'') (rev p))"

definition path_suffix :: "string \<Rightarrow> string" where
  "path_suffix p =
     (let nm = path_name p; ext = rev (takeWhile (\<lambda>c. c \<noteq> CHR ''.'') (rev nm))
      in if CHR ''.'' \<in> set nm \<and> length ext + 1 < length nm \<and> ext \<noteq> []
         then CHR ''.'' # ext else [])"

definition lower :: "string \<Rightarrow> string" where
  "lower s = map (\<lambda>c. let n = (of_char c :: nat)
                       in if (65 \<le> n \<and> n \<le> 90) \<or> (192 \<le> n \<and> n \<le> 222 \<and> n \<noteq> 215)
                          then char_of (n + 32) else c) s"

fun substring :: "string \<Rightarrow> string \<Rightarrow> bool" where
  "substring p [] = (p = [])"
| "substring p (c # cs) = (startswith (c # cs) p \<or> substring p cs)"

definition set_type :: "(string \<times> RobotFile) list \<Rightarrow> string \<Rightarrow> FileType \<Rightarrow> (string \<times> RobotFile) list" where
  "set_type files file t = map (\<lambda>(k, f). if k = file then (k, f\<lparr>type' := t\<rparr>) else (k, f)) files"

text \<open>
  Modelled from the spec: \<^verbatim>\<open>FileTypeChecker.visit\<close>, of which only the calls are at hand.
  "Any file referenced by an import/resource statement in the file currently being
  visited has its own previously-assigned type upgraded to resource type."
\<close>

definition visit :: "collaborators \<Rightarrow> (string \<times> RobotFile) list \<Rightarrow> string \<Rightarrow> (string \<times> RobotFile) list" where
  "visit env files file = fold (\<lambda>target fs. set_type fs target RESOURCE) (imports_of env file) files"

definition recognize_file_type ::
  "collaborators \<Rightarrow> string \<Rightarrow> (string \<times> RobotFile) list \<Rightarrow> (string \<times> RobotFile) list" where
  "recognize_file_type env file files =
     (let t = (if substring ''__init__'' (path_name file) then INIT
               else if lower (path_suffix file) = ''.resource'' then RESOURCE
               else GENERAL)
      in visit env (set_type files file t) file)"

text \<open>
  The inner loop of \<^verbatim>\<open>run_checks\<close> over the checkers; \<^verbatim>\<open>checker.source\<close> is assigned
  in the checker of the list.
\<close>

fun scan_with ::
  "collaborators \<Rightarrow> Robocop \<Rightarrow> checker list \<Rightarrow> checker list \<Rightarrow> FileType \<Rightarrow> string \<Rightarrow> error + Robocop" where
  "scan_with env st done [] t file = Inr (st\<lparr>checkers := done\<rparr>)"
| "scan_with env st done (c # todo) t file =
     (if disabled c then scan_with env st (done @ [c]) todo t file
      else (let c1 = c\<lparr>checker_source := file\<rparr>
            in case report_each env st (scan_file env c1 t file) of
                 Inl e \<Rightarrow> Inl e
               | Inr st1 \<Rightarrow> scan_with env st1 (done @ [c1]) todo t file))"

text \<open>
  The loop of \<^verbatim>\<open>run_checks\<close> over the discovered files. \<open>files\<close> is the dictionary of
  all files, \<open>parsed_files\<close> the keys of the second dictionary, whose values are the
  same objects.
\<close>

fun run_checks_loop ::
  "collaborators \<Rightarrow> Robocop \<Rightarrow> (string \<times> RobotFile) list \<Rightarrow> string list \<Rightarrow> string list
   \<Rightarrow> error + Robocop \<times> (string \<times> RobotFile) list \<times> string list" where
  "run_checks_loop env st files parsed_files [] = Inr (st, files, parsed_files)"
| "run_checks_loop env st files parsed_files (file # rest) =
     (case register_disablers env st file of
        Inl e \<Rightarrow> Inl e
      | Inr st1 \<Rightarrow>
         if (case disabler st1 of None \<Rightarrow> False | Some d \<Rightarrow> file_disabled d)
         then run_checks_loop env st1 files parsed_files rest
         else (let files1 = recognize_file_type env file files;
                   t = (case map_of files1 file of None \<Rightarrow> GENERAL | Some f \<Rightarrow> type' f);
                   files2 = map (\<lambda>(k, f). if k = file then (k, f\<lparr>scanned_with_type := t\<rparr>) else (k, f)) files1
               in case scan_with env st1 [] (checkers st1) t file of
                    Inl e \<Rightarrow> Inl e
                  | Inr st2 \<Rightarrow> run_checks_loop env st2 files2 (parsed_files @ [file]) rest))"

text \<open>\<^verbatim>\<open>run_checks_on_files_with_type_changed\<close>, for the first parsing-error checker.\<close>

fun rescan_files ::
  "collaborators \<Rightarrow> Robocop \<Rightarrow> checker \<Rightarrow> (string \<times> RobotFile) list \<Rightarrow> string list
   \<Rightarrow> error + Robocop \<times> checker" where
  "rescan_files env st c files [] = Inr (st, c)"
| "rescan_files env st c files (file # rest) =
     (case map_of files file of
        None \<Rightarrow> rescan_files env st c files rest
      | Some robot_file \<Rightarrow>
          if scanned_with_type robot_file = type' robot_file then rescan_files env st c files rest
          else (let c1 = c\<lparr>parse_only_section_not_allowed := True, checker_source := file\<rparr>
                in case report_each env st (scan_file env c1 (type' robot_file) file) of
                     Inl e \<Rightarrow> Inl e
                   | Inr st1 \<Rightarrow> rescan_files env st1 c1 files rest))"

fun run_checks_on_files_with_type_changed ::
  "collaborators \<Rightarrow> Robocop \<Rightarrow> checker list \<Rightarrow> checker list \<Rightarrow> (string \<times> RobotFile) list \<Rightarrow> string list
   \<Rightarrow> error + Robocop" where
  "run_checks_on_files_with_type_changed env st done [] files parsed_files = Inr st"
| "run_checks_on_files_with_type_changed env st done (c # todo) files parsed_files =
     (if cls c = ''ParsingErrorChecker''
      then (case rescan_files env st c files parsed_files of
              Inl e \<Rightarrow> Inl e
            | Inr (st1, c1) \<Rightarrow> Inr (st1\<lparr>checkers := done @ c1 # todo\<rparr>))
      else run_checks_on_files_with_type_changed env st (done @ [c]) todo files parsed_files)"

text \<open>
  \<^verbatim>\<open>run_checks\<close>, given the files that \<^verbatim>\<open>get_files\<close> discovers, in order. Every
  \<^verbatim>\<open>RobotFile\<close> is assigned its type before the type is read.
\<close>

definition run_checks :: "collaborators \<Rightarrow> Robocop \<Rightarrow> string list \<Rightarrow> error + Robocop" where
  "run_checks env st discovered =
     (let files = map (\<lambda>file. (file, \<lparr>type' = GENERAL, scanned_with_type = GENERAL\<rparr>)) discovered
      in case run_checks_loop env st files [] discovered of
           Inl e \<Rightarrow> Inl e
         | Inr (st1, files1, parsed_files) \<Rightarrow>
             run_checks_on_files_with_type_changed env st1 [] (checkers st1) files1 parsed_files)"

section \<open>Auxiliary notions for the statements\<close>

text \<open>
  The guarded step of \<^verbatim>\<open>is_msg_disabled\<close>:
  \<^verbatim>\<open>if key in self.rules: disabled = self.is_line_disabled(line, key)\<close>.
\<close>

definition guarded :: "DisablersFinder \<Rightarrow> int \<Rightarrow> string \<Rightarrow> bool \<times> DisablersFinder" where
  "guarded st l k = (if contains st k then is_line_disabled st l k else (False, st))"

text \<open>The two flags of the finder.\<close>

definition flags :: "DisablersFinder \<Rightarrow> bool \<times> bool" where
  "flags st = (file_disabled st, any_disabler st)"

text \<open>
  The directive of a line, as \<^verbatim>\<open>_parse_file\<close> and \<^verbatim>\<open>_parse_line\<close> find it: the groups
  of the pattern's match in the comment of a line that contains \<^verbatim>\<open>#\<close>.
\<close>

definition directive :: "string \<Rightarrow> (string \<times> string) option" where
  "directive ln = (if CHR ''#'' \<in> set ln then search (comment_of ln) else None)"

text \<open>
  No open-block marker and no start of a closed block is 0: lines are counted from 1,
  and \<open>-1\<close> marks that no block is open.
\<close>

definition no_zero :: "DisablersFinder \<Rightarrow> bool" where
  "no_zero st =
     (lastblock (default_factory st) \<noteq> 0
      \<and> list_all (\<lambda>(k, d). lastblock d \<noteq> 0) (rules st)
      \<and> (\<forall>a. list_all (\<lambda>block. fst block \<noteq> 0) (list_objs st a)))"

text \<open>
  The checker as \<^verbatim>\<open>register_checker\<close> stores it: after \<^verbatim>\<open>any_rule_enabled\<close> has
  resolved the flag \<^verbatim>\<open>enabled\<close> of its rules and the first statement has set
  \<^verbatim>\<open>disabled\<close>.
\<close>

definition resolved :: "(Rule \<Rightarrow> bool) \<Rightarrow> checker \<Rightarrow> checker" where
  "resolved is_rule_enabled c =
     (let (any_enabled, c1) = any_rule_enabled is_rule_enabled c
      in if \<not> any_enabled then c1\<lparr>disabled := True\<rparr> else c1)"

text \<open>
  A run on two files, given what reading \<^verbatim>\<open>a.robot\<close> yields. \<^verbatim>\<open>a.robot\<close> is discovered
  first and scanned as a general file; \<^verbatim>\<open>b.robot\<close> imports it as a resource. Under the
  resource grammar the parsing-error checker reports the first line of \<^verbatim>\<open>a.robot\<close>. In
  \<open>two_files\<close> that line carries an inline directive disabling the rule. \<open>fresh_files\<close>
  is the dictionary of the two files as \<^verbatim>\<open>run_checks\<close> builds it.
\<close>

definition parsing_error :: Rule where
  "parsing_error =
     \<lparr>rule_id = ''0401'', name' = ''parsing-error'', enabled = True, severity = ''E'',
      source = ''a.robot'', line' = 1, col = 1, desc = ''Robot Framework syntax error''\<rparr>"

definition reading :: "source_file \<Rightarrow> collaborators" where
  "reading a =
     \<lparr>read_file = (\<lambda>p. if p = ''a.robot'' then a
                         else File [''*** Settings ***\<newline>'', ''Resource  a.robot\<newline>'']),
      get_fullname = (\<lambda>m. severity m @ rule_id m @ '' ('' @ name' m @ '')''),
      scan_file = (\<lambda>c t p. if cls c = ''ParsingErrorChecker'' \<and> p = ''a.robot'' \<and> t = RESOURCE
                            then [parsing_error] else []),
      imports_of = (\<lambda>p. if p = ''b.robot'' then [''a.robot''] else [])\<rparr>"

definition two_files :: collaborators where
  "two_files = reading (File [''*** Test Cases ***  # robocop: disable=parsing-error\<newline>''])"

definition fresh_files :: "(string \<times> RobotFile) list" where
  "fresh_files =
     [(''a.robot'', \<lparr>type' = GENERAL, scanned_with_type = GENERAL\<rparr>),
      (''b.robot'', \<lparr>type' = GENERAL, scanned_with_type = GENERAL\<rparr>)]"

definition linter :: Robocop where
  "linter =
     \<lparr>checkers = [\<lparr>cls = ''ParsingErrorChecker'', rules_map = [(''parsing-error'', parsing_error)],
                   disabled = False, checker_source = [], parse_only_section_not_allowed = False\<rparr>],
      rules' = Map.empty, reports = [RulesByIdReport []], disabler = None, out = []\<rparr>"

text \<open>
  Two checkers that each declare a rule named \<^verbatim>\<open>line-too-long\<close>, and the linter before
  and after the first of them is registered.
\<close>

definition rule_named :: "string \<Rightarrow> string \<Rightarrow> Rule" where
  "rule_named rid nm =
     \<lparr>rule_id = rid, name' = nm, enabled = True, severity = ''W'', source = [], line' = - 1,
      col = - 1, desc = []\<rparr>"

definition checker_with :: "string \<Rightarrow> Rule \<Rightarrow> checker" where
  "checker_with c rule =
     \<lparr>cls = c, rules_map = [(name' rule, rule)], disabled = False, checker_source = [],
      parse_only_section_not_allowed = False\<rparr>"

definition empty_linter :: Robocop where
  "empty_linter = \<lparr>checkers = [], rules' = Map.empty, reports = [], disabler = None, out = []\<rparr>"

definition one_checker :: Robocop where
  "one_checker =
     empty_linter
       \<lparr>rules' := [''line-too-long'' \<mapsto> (rule_named ''0508'' ''line-too-long'',
                                            checker_with ''LengthChecker'' (rule_named ''0508'' ''line-too-long'')),
                   ''0508'' \<mapsto> (rule_named ''0508'' ''line-too-long'',
                                checker_with ''LengthChecker'' (rule_named ''0508'' ''line-too-long''))],
        checkers := [checker_with ''LengthChecker'' (rule_named ''0508'' ''line-too-long'')]\<rparr>"

section \<open>Properties of the disablers\<close>

lemmas model_defs = DisablersFinder_init_def parse_line_def statement_of_def comment_of_def
  match_here_def startswith_def rules_group_def is_rules_char_def is_word_char_def
  start_block_def add_inline_disabler_def end_block_def end_all_blocks_def end_block_rule_def
  close_block_def getitem_def set_lastblock_def copy_def contains_def is_file_disabled_def
  is_msg_disabled_def is_line_disabled_def directive_def Let_def

subsection \<open>The mutual recursion, unrolled\<close>

lemma end_block_other: "rule \<noteq> ''all'' \<Longrightarrow> end_block st rule lineno = end_block_rule st rule lineno"
  by (simp add: end_block_def end_block_rule_def)

subsection \<open>Queries read only\<close>

lemma getitem_present: "contains st rule \<Longrightarrow> snd (getitem st rule) = st"
  by (auto simp: contains_def getitem_def split: option.splits)

lemma is_line_disabled_present: "contains st rule \<Longrightarrow> snd (is_line_disabled st ln rule) = st"
  using getitem_present [of st rule]
  by (cases "getitem st rule") (simp add: is_line_disabled_def)

lemma guarded_state: "guarded st l k = (fst (guarded st l k), st)"
  by (simp add: guarded_def is_line_disabled_present prod_eq_iff)

lemma guarded_fst:
  "fst (guarded st l k) =
     (case map_of (rules st) k of
        None \<Rightarrow> False
      | Some d \<Rightarrow> l \<in> set_objs st (lines d)
           \<or> list_ex (\<lambda>block. fst block \<le> l \<and> l \<le> snd block) (list_objs st (blocks d)))"
  by (simp add: guarded_def contains_def is_line_disabled_def getitem_def split: option.splits)

lemma is_msg_disabled_unfold:
  "is_msg_disabled st m =
     (if \<not> any_disabler st then (False, st)
      else if fst (guarded st (line m) ''all'') then (True, st)
      else if fst (guarded st (line m) (msg_id m)) then (True, st)
      else if fst (guarded st (line m) (name m)) then (True, st)
      else (False, st))"
proof -
  have "is_msg_disabled st m =
     (if \<not> any_disabler st then (False, st)
      else (let (r1, st1) = guarded st (line m) ''all''
            in if r1 then (True, st1)
               else (let (r2, st2) = guarded st1 (line m) (msg_id m)
                     in if r2 then (True, st2)
                        else (let (r3, st3) = guarded st2 (line m) (name m)
                              in if r3 then (True, st3) else (False, st3)))))"
    unfolding is_msg_disabled_def guarded_def by (rule refl)
  also have "\<dots> = (if \<not> any_disabler st then (False, st)
      else if fst (guarded st (line m) ''all'') then (True, st)
      else if fst (guarded st (line m) (msg_id m)) then (True, st)
      else if fst (guarded st (line m) (name m)) then (True, st)
      else (False, st))"
    by (subst (1 2 3) guarded_state) (simp add: Let_def)
  finally show ?thesis .
qed

lemma is_msg_disabled_state: "snd (is_msg_disabled st m) = st"
  by (simp add: is_msg_disabled_unfold)

text \<open>
  C10. A suppression query returns the state it was given: the keys of the rule map,
  every rule's open-block marker, and the stored line sets and block lists are those
  of before. So it is after any sequence of queries, on any state and in particular on
  the state that the constructor returns for a file.
\<close>

theorem queries_do_not_mutate:
  "snd (is_msg_disabled st m) = st
   \<and> fold (\<lambda>m s. snd (is_msg_disabled s m)) ms st = st
   \<and> (case DisablersFinder_init src of
         Inl e \<Rightarrow> True
       | Inr d \<Rightarrow> fold (\<lambda>m s. snd (is_msg_disabled s m)) ms d = d)"
proof -
  have one: "snd (is_msg_disabled s m) = s" for s m
    by (rule is_msg_disabled_state)
  have many: "fold (\<lambda>m s. snd (is_msg_disabled s m)) ms s = s" for s
    by (induction ms) (simp_all add: is_msg_disabled_state)
  have built: "(case DisablersFinder_init src of
                  Inl e \<Rightarrow> True
                | Inr d \<Rightarrow> fold (\<lambda>m s. snd (is_msg_disabled s m)) ms d = d)"
    by (cases "DisablersFinder_init src") (simp_all only: many sum.case)
  from one [of st m] many [of st] built show ?thesis
    by (intro conjI)
qed

text \<open>
  The guard \<^verbatim>\<open>key in self.rules\<close> matters: on a key that the map does not hold,
  \<^verbatim>\<open>is_line_disabled\<close> alone makes the \<^verbatim>\<open>defaultdict\<close> insert it.
\<close>

lemma is_line_disabled_inserts:
  "\<not> contains st rule \<Longrightarrow> rules (snd (is_line_disabled st ln rule)) = rules st @ [(rule, copy (default_factory st))]"
  by (simp add: is_line_disabled_def getitem_def contains_def Let_def)


subsection \<open>Parsing leaves the flags alone\<close>

lemma flags_getitem: "flags (snd (getitem st rule)) = flags st"
  by (simp add: flags_def getitem_def Let_def split: option.splits)

lemma flags_set_lastblock: "flags (set_lastblock st rule v) = flags st"
  by (simp add: flags_def set_lastblock_def)

lemma flags_add_inline_disabler: "flags (add_inline_disabler st rule n) = flags st"
  using flags_getitem [of st rule]
  by (cases "getitem st rule") (simp add: add_inline_disabler_def flags_def)

lemma flags_start_block: "flags (start_block st rule n) = flags st"
  using flags_getitem [of st rule]
  by (cases "getitem st rule") (auto simp: start_block_def flags_set_lastblock)

lemma flags_close_block: "flags (close_block st rule n) = flags st"
  using flags_getitem [of st rule]
  by (cases "getitem st rule") (simp add: close_block_def Let_def flags_def set_lastblock_def)

lemma flags_fold:
  assumes "\<And>x s. flags (f x s) = flags s"
  shows "flags (fold f xs st) = flags st"
  by (induction xs arbitrary: st) (simp_all add: assms)

lemma flags_end_block_rule: "flags (end_block_rule st rule n) = flags st"
  by (simp add: end_block_rule_def flags_close_block)

lemma flags_end_all_blocks: "flags (end_all_blocks st n) = flags st"
  unfolding end_all_blocks_def
  by (rule flags_fold) (simp add: flags_end_block_rule)

lemma flags_end_block: "flags (end_block st rule n) = flags st"
  by (simp add: end_block_def Let_def flags_end_all_blocks flags_close_block)

lemma flags_parse_line: "flags (parse_line st ln n) = flags st"
  unfolding parse_line_def Let_def
  by (auto split: option.splits prod.splits intro!: flags_fold
           simp: flags_start_block flags_add_inline_disabler flags_end_block)

lemma flags_parse_lines: "flags (parse_lines st lns n) = flags st"
  by (induction lns arbitrary: st n) (simp_all add: flags_parse_line)

lemma Fails_flags:
  "DisablersFinder_init (Fails lns) = Inr d \<Longrightarrow> flags d = (False, False)"
  by (auto simp: DisablersFinder_init_def flags_parse_lines) (simp add: flags_def)

text \<open>
  C9, as the code has it. When reading the file raises \<^verbatim>\<open>OSError\<close> (at \<^verbatim>\<open>open\<close> or after
  any number of lines), the constructor returns a finder; in it the file is not
  whole-file-disabled, and every suppression query answers "not disabled" and leaves
  the finder as it is. In \<^verbatim>\<open>run_checks\<close> the step of that file registers the finder and
  does not skip the file: the file is classified and scanned, and when the scan has
  returned the loop goes on with the files that follow.
\<close>

theorem oserror_fails_open:
  "(\<exists>d. DisablersFinder_init (Fails lns) = Inr d
        \<and> file_disabled d = False
        \<and> (\<forall>m. is_msg_disabled d m = (False, d)))
   \<and> (read_file env file = Fails lns \<longrightarrow>
        (\<exists>d st1 files1 t files2.
            DisablersFinder_init (Fails lns) = Inr d
          \<and> st1 = st\<lparr>disabler := Some d\<rparr>
          \<and> register_disablers env st file = Inr st1
          \<and> files1 = recognize_file_type env file files
          \<and> t = (case map_of files1 file of None \<Rightarrow> GENERAL | Some f \<Rightarrow> type' f)
          \<and> files2 = map (\<lambda>(k, f). if k = file then (k, f\<lparr>scanned_with_type := t\<rparr>) else (k, f)) files1
          \<and> run_checks_loop env st files parsed_files (file # rest)
              = (case scan_with env st1 [] (checkers st1) t file of
                   Inl e \<Rightarrow> Inl e
                 | Inr st2 \<Rightarrow> run_checks_loop env st2 files2 (parsed_files @ [file]) rest)))"
proof (intro conjI impI)
  obtain d where d: "DisablersFinder_init (Fails lns) = Inr d"
    by (simp add: DisablersFinder_init_def)
  from Fails_flags [OF d] have fl: "file_disabled d = False" "any_disabler d = False"
    by (simp_all add: flags_def)
  then have q: "is_msg_disabled d m = (False, d)" for m
    by (simp add: is_msg_disabled_def)
  from d fl q show "\<exists>d. DisablersFinder_init (Fails lns) = Inr d
        \<and> file_disabled d = False \<and> (\<forall>m. is_msg_disabled d m = (False, d))"
    by blast
  assume rd: "read_file env file = Fails lns"
  have reg: "register_disablers env st file = Inr (st\<lparr>disabler := Some d\<rparr>)"
    by (simp add: register_disablers_def rd d)
  have "run_checks_loop env st files parsed_files (file # rest)
      = (case scan_with env (st\<lparr>disabler := Some d\<rparr>) [] (checkers (st\<lparr>disabler := Some d\<rparr>))
                (case map_of (recognize_file_type env file files) file of
                   None \<Rightarrow> GENERAL | Some f \<Rightarrow> type' f) file of
           Inl e \<Rightarrow> Inl e
         | Inr st2 \<Rightarrow>
             run_checks_loop env st2
               (map (\<lambda>(k, f). if k = file
                       then (k, f\<lparr>scanned_with_type :=
                                    (case map_of (recognize_file_type env file files) file of
                                       None \<Rightarrow> GENERAL | Some f \<Rightarrow> type' f)\<rparr>)
                       else (k, f))
                    (recognize_file_type env file files))
               (parsed_files @ [file]) rest)"
    by (simp add: reg fl Let_def)
  with d reg show "\<exists>d st1 files1 t files2.
            DisablersFinder_init (Fails lns) = Inr d
          \<and> st1 = st\<lparr>disabler := Some d\<rparr>
          \<and> register_disablers env st file = Inr st1
          \<and> files1 = recognize_file_type env file files
          \<and> t = (case map_of files1 file of None \<Rightarrow> GENERAL | Some f \<Rightarrow> type' f)
          \<and> files2 = map (\<lambda>(k, f). if k = file then (k, f\<lparr>scanned_with_type := t\<rparr>) else (k, f)) files1
          \<and> run_checks_loop env st files parsed_files (file # rest)
              = (case scan_with env st1 [] (checkers st1) t file of
                   Inl e \<Rightarrow> Inl e
                 | Inr st2 \<Rightarrow> run_checks_loop env st2 files2 (parsed_files @ [file]) rest)"
    by blast
qed

text \<open>
  The run on the two files when \<^verbatim>\<open>open\<close> raises \<^verbatim>\<open>OSError\<close> for \<^verbatim>\<open>a.robot\<close>: a finder
  is registered for it that suppresses nothing, and the first pass goes through both
  files.
\<close>

theorem oserror_fails_open_witness:
  "(\<exists>d. DisablersFinder_init (Fails []) = Inr d
        \<and> file_disabled d = False
        \<and> is_msg_disabled d \<lparr>line = 1, msg_id = ''0401'', name = ''parsing-error''\<rparr> = (False, d))
   \<and> (\<exists>st files. run_checks_loop (reading (Fails [])) linter fresh_files [] [''a.robot'', ''b.robot'']
                    = Inr (st, files, [''a.robot'', ''b.robot'']))"
proof -
  have rd: "read_file (reading (Fails [])) ''a.robot'' = Fails []"
    by (simp add: reading_def)
  from oserror_fails_open [of "[]" "reading (Fails [])" "''a.robot''" linter fresh_files "[]" "[''b.robot'']"] rd
  obtain d where d: "DisablersFinder_init (Fails []) = Inr d"
    and fd: "file_disabled d = False"
    and q: "\<forall>m. is_msg_disabled d m = (False, d)"
    and loop: "run_checks_loop (reading (Fails [])) linter fresh_files [] [''a.robot'', ''b.robot'']
       = (case scan_with (reading (Fails [])) (linter\<lparr>disabler := Some d\<rparr>) []
                 (checkers (linter\<lparr>disabler := Some d\<rparr>))
                 (case map_of (recognize_file_type (reading (Fails [])) ''a.robot'' fresh_files) ''a.robot'' of
                    None \<Rightarrow> GENERAL | Some f \<Rightarrow> type' f) ''a.robot'' of
            Inl e \<Rightarrow> Inl e
          | Inr st2 \<Rightarrow>
              run_checks_loop (reading (Fails [])) st2
                (map (\<lambda>(k, f). if k = ''a.robot''
                        then (k, f\<lparr>scanned_with_type :=
                               (case map_of (recognize_file_type (reading (Fails [])) ''a.robot'' fresh_files) ''a.robot'' of
                                  None \<Rightarrow> GENERAL | Some f \<Rightarrow> type' f)\<rparr>)
                        else (k, f))
                     (recognize_file_type (reading (Fails [])) ''a.robot'' fresh_files))
                ([] @ [''a.robot'']) [''b.robot''])"
    by auto
  have rest: "\<exists>st files. run_checks_loop (reading (Fails [])) linter fresh_files [] [''a.robot'', ''b.robot'']
                    = Inr (st, files, [''a.robot'', ''b.robot''])"
    unfolding loop
    by (simp add: reading_def linter_def parsing_error_def fresh_files_def register_disablers_def
          recognize_file_type_def visit_def set_type_def path_name_def path_suffix_def lower_def
          model_defs)
  from d fd q rest show ?thesis by auto
qed

text \<open>
  C9, as it is stated, fails when the bytes of the file do not decode: the first read
  raises \<^verbatim>\<open>UnicodeDecodeError\<close>, which \<^verbatim>\<open>except OSError\<close> does not catch. The constructor
  raises, and so does \<^verbatim>\<open>run_checks\<close>, before it scans that file or any other.
\<close>

theorem undecodable_file_raises:
  "DisablersFinder_init (Undecodable []) = Inl UnicodeDecodeError
   \<and> run_checks (reading (Undecodable [])) linter [''a.robot'', ''b.robot'']
       = Inl (Uncaught UnicodeDecodeError)"
  by (simp add: DisablersFinder_init_def run_checks_def register_disablers_def reading_def)

subsection \<open>A single inline directive\<close>

lemma split_no_sep: "sep \<notin> set s \<Longrightarrow> split sep s = [s]"
  by (induction s) auto

lemma parse_line_none:
  "directive ln = None \<Longrightarrow> (if CHR ''#'' \<in> set ln then parse_line st ln n else st) = st"
  by (simp add: directive_def parse_line_def split: if_splits)

lemma parse_lines_none:
  "(\<And>ln. ln \<in> set lns \<Longrightarrow> directive ln = None) \<Longrightarrow> parse_lines st lns n = st"
proof (induction lns arbitrary: n)
  case Nil
  show ?case by simp
next
  case (Cons a lns)
  have "directive a = None" by (simp add: Cons.prems)
  then have "parse_lines st (a # lns) n = parse_lines st lns (n + 1)"
    using parse_line_none [of a st n] by simp
  then show ?case by (simp add: Cons)
qed

lemma parse_lines_append:
  "parse_lines st (xs @ ys) n = parse_lines (parse_lines st xs n) ys (n + int (length xs))"
  by (induction xs arbitrary: st n) (simp_all add: algebra_simps)

lemma parse_line_inline_disable:
  assumes "directive ln = Some (''disable'', r)" "statement_of ln \<noteq> []" "r \<noteq> []" "CHR '','' \<notin> set r"
  shows "(if CHR ''#'' \<in> set ln then parse_line st ln n else st) = add_inline_disabler st r n"
  using assms by (auto simp: directive_def parse_line_def split_no_sep split: if_splits)

text \<open>
  C8. Let line \<open>k + 1\<close> of a file carry the only directive of the file, an inline
  \<^verbatim>\<open>disable=ruleA\<close> (the statement before \<^verbatim>\<open>#\<close> is not empty; \<open>ruleA\<close> is one rule
  key, not the key \<^verbatim>\<open>all\<close>). Then a finding is suppressed exactly when its id or its
  name is \<open>ruleA\<close> and its line is \<open>k + 1\<close>: a finding of \<open>ruleA\<close> on that line is
  suppressed, one of \<open>ruleA\<close> on another line is not, and one of another rule on that
  line is not.
\<close>

theorem single_inline_disable:
  assumes k: "k < length lns"
    and d: "directive (lns ! k) = Some (''disable'', ruleA)"
    and inl: "statement_of (lns ! k) \<noteq> []"
    and r: "ruleA \<noteq> []" "CHR '','' \<notin> set ruleA" "ruleA \<noteq> ''all''"
    and others: "\<forall>i<length lns. i \<noteq> k \<longrightarrow> directive (lns ! i) = None"
  shows "\<exists>d. DisablersFinder_init (File lns) = Inr d
             \<and> fst (is_msg_disabled d m)
                 = ((msg_id m = ruleA \<or> name m = ruleA) \<and> line m = int k + 1)"
proof -
  define st0 where "st0 = \<lparr>file_disabled = False, any_disabler = False, rules = [],
                 default_factory = \<lparr>lastblock = - 1, lines = 0, blocks = 0\<rparr>,
                 set_objs = (\<lambda>a. {}), list_objs = (\<lambda>a. [])\<rparr>"
  define st1 where "st1 = add_inline_disabler st0 ruleA (int k + 1)"
  have lns: "lns = take k lns @ (lns ! k) # drop (Suc k) lns"
    using k by (simp add: id_take_nth_drop)
  have pre: "directive ln = None" if "ln \<in> set (take k lns)" for ln
  proof -
    from that obtain i where "i < k" "ln = lns ! i"
      using k by (auto simp: in_set_conv_nth)
    with others k show ?thesis by simp
  qed
  have post: "directive ln = None" if "ln \<in> set (drop (Suc k) lns)" for ln
  proof -
    from that obtain i where "i < length lns - Suc k" "ln = lns ! (Suc k + i)"
      using k by (auto simp: in_set_conv_nth)
    with others k show ?thesis by simp
  qed
  have "parse_lines st0 lns 1 = parse_lines st0 (take k lns @ (lns ! k) # drop (Suc k) lns) 1"
    using lns by simp
  also have "\<dots> = st1"
    using k by (simp add: parse_lines_append parse_lines_none pre post
        parse_line_inline_disable [OF d inl r(1,2)] st1_def min_def add.commute)
  finally have pl: "parse_lines st0 lns 1 = st1" .
  have st1: "st1 = st0\<lparr>rules := [(ruleA, \<lparr>lastblock = - 1, lines = 0, blocks = 0\<rparr>)],
                      set_objs := (\<lambda>a. {})(0 := {int k + 1})\<rparr>"
    by (simp add: st1_def st0_def add_inline_disabler_def getitem_def copy_def Let_def)
  have nall: "\<not> contains st1 ''all''"
    using r(3) by (simp add: st1 contains_def st0_def)
  have ne: "lns \<noteq> []" using k by auto
  have fin: "DisablersFinder_init (File lns) = Inr (st1\<lparr>file_disabled := False, any_disabler := True\<rparr>)"
    using nall ne
    by (simp add: DisablersFinder_init_def st0_def [symmetric] pl end_block_def is_file_disabled_def)
       (simp add: st1 st0_def)
  show ?thesis
    using r(3)
    by (auto simp add: fin is_msg_disabled_unfold guarded_fst st1 st0_def)
qed

theorem single_inline_disable_witness:
  "\<exists>d. DisablersFinder_init (File [''*** Test Cases ***\<newline>'',
                                    ''    Log  1  # robocop: disable=ruleA\<newline>'',
                                    ''    Log  2\<newline>'']) = Inr d
       \<and> fst (is_msg_disabled d \<lparr>line = 2, msg_id = ''0101'', name = ''ruleA''\<rparr>)
       \<and> \<not> fst (is_msg_disabled d \<lparr>line = 3, msg_id = ''0101'', name = ''ruleA''\<rparr>)
       \<and> \<not> fst (is_msg_disabled d \<lparr>line = 2, msg_id = ''0202'', name = ''ruleB''\<rparr>)"
proof -
  let ?lns = "[''*** Test Cases ***\<newline>'',
               ''    Log  1  # robocop: disable=ruleA\<newline>'',
               ''    Log  2\<newline>'']"
  have k: "(1::nat) < length ?lns" by simp
  have d: "directive (?lns ! 1) = Some (''disable'', ''ruleA'')"
    by (simp add: model_defs)
  have inl: "statement_of (?lns ! 1) \<noteq> []"
    by (simp add: statement_of_def)
  have r: "''ruleA'' \<noteq> []" "CHR '','' \<notin> set ''ruleA''" "''ruleA'' \<noteq> ''all''"
    by simp_all
  have others: "\<forall>i<length ?lns. i \<noteq> 1 \<longrightarrow> directive (?lns ! i) = None"
    by (simp add: model_defs numeral_3_eq_3 All_less_Suc)
  note inst = single_inline_disable [OF k d inl r others]
  from inst [of "\<lparr>line = 2, msg_id = ''0101'', name = ''ruleA''\<rparr>"]
       inst [of "\<lparr>line = 3, msg_id = ''0101'', name = ''ruleA''\<rparr>"]
       inst [of "\<lparr>line = 2, msg_id = ''0202'', name = ''ruleB''\<rparr>"]
  show ?thesis by auto
qed

subsection \<open>No block starts at 0\<close>

lemma no_zero_getitem:
  assumes "no_zero st"
  shows "no_zero (snd (getitem st rule))" and "lastblock (fst (getitem st rule)) \<noteq> 0"
proof -
  show "no_zero (snd (getitem st rule))"
    using assms by (auto simp: no_zero_def getitem_def copy_def Let_def split: option.splits)
  show "lastblock (fst (getitem st rule)) \<noteq> 0"
  proof (cases "map_of (rules st) rule")
    case None
    with assms show ?thesis by (simp add: no_zero_def getitem_def copy_def Let_def)
  next
    case (Some d)
    then have "(rule, d) \<in> set (rules st)" by (rule map_of_SomeD)
    with assms have "lastblock d \<noteq> 0" by (auto simp: no_zero_def list_all_iff)
    with Some show ?thesis by (simp add: getitem_def)
  qed
qed

lemma no_zero_set_lastblock: "no_zero st \<Longrightarrow> v \<noteq> 0 \<Longrightarrow> no_zero (set_lastblock st rule v)"
  by (fastforce simp: no_zero_def set_lastblock_def list_all_iff split: if_splits)

lemma no_zero_add_inline_disabler: "no_zero st \<Longrightarrow> no_zero (add_inline_disabler st rule n)"
  using no_zero_getitem(1) [of st rule]
  by (cases "getitem st rule") (simp add: add_inline_disabler_def no_zero_def)

lemma no_zero_start_block: "no_zero st \<Longrightarrow> n \<noteq> 0 \<Longrightarrow> no_zero (start_block st rule n)"
  using no_zero_getitem(1) [of st rule]
  by (cases "getitem st rule") (auto simp: start_block_def no_zero_set_lastblock)

lemma no_zero_close_block: "no_zero st \<Longrightarrow> no_zero (close_block st rule n)"
proof -
  assume st: "no_zero st"
  obtain d st1 where g: "getitem st rule = (d, st1)" by (cases "getitem st rule")
  from no_zero_getitem [OF st, of rule] g have st1: "no_zero st1" and d: "lastblock d \<noteq> 0"
    by simp_all
  from st1 have "no_zero (set_lastblock st1 rule (- 1))"
    by (simp add: no_zero_set_lastblock)
  with d show ?thesis
    by (simp add: close_block_def g Let_def st1) (simp add: no_zero_def)
qed

lemma no_zero_fold:
  assumes "\<And>x s. no_zero s \<Longrightarrow> no_zero (f x s)" "no_zero st"
  shows "no_zero (fold f xs st)"
  using assms(2) by (induction xs arbitrary: st) (simp_all add: assms(1))

lemma no_zero_end_block_rule: "no_zero st \<Longrightarrow> no_zero (end_block_rule st rule n)"
  by (simp add: end_block_rule_def no_zero_close_block)

lemma no_zero_end_all_blocks: "no_zero st \<Longrightarrow> no_zero (end_all_blocks st n)"
  unfolding end_all_blocks_def
  by (rule no_zero_fold) (simp_all add: no_zero_end_block_rule)

lemma no_zero_end_block: "no_zero st \<Longrightarrow> no_zero (end_block st rule n)"
  by (simp add: end_block_def Let_def no_zero_end_all_blocks no_zero_close_block)

lemma no_zero_parse_line: "no_zero st \<Longrightarrow> n \<noteq> 0 \<Longrightarrow> no_zero (parse_line st ln n)"
  unfolding parse_line_def Let_def
  by (auto split: option.splits prod.splits intro!: no_zero_fold
           simp: no_zero_start_block no_zero_add_inline_disabler no_zero_end_block)

lemma no_zero_parse_lines: "no_zero st \<Longrightarrow> 0 < n \<Longrightarrow> no_zero (parse_lines st lns n)"
  by (induction lns arbitrary: st n) (simp_all add: no_zero_parse_line)

lemma no_zero_not_file_disabled: "no_zero st \<Longrightarrow> is_file_disabled st last_line = False"
proof -
  assume st: "no_zero st"
  obtain d st1 where g: "getitem st ''all'' = (d, st1)" by (cases "getitem st ''all''")
  from no_zero_getitem(1) [OF st, of "''all''"] g have "no_zero st1" by simp
  then have all: "list_all (\<lambda>block. fst block \<noteq> 0) (list_objs st1 (blocks d))"
    by (simp add: no_zero_def)
  have "hd (list_objs st1 (blocks d)) \<noteq> (0, last_line)" if "length (list_objs st1 (blocks d)) = 1"
    using that all by (cases "list_objs st1 (blocks d)") auto
  then show ?thesis
    by (auto simp: is_file_disabled_def g)
qed

text \<open>
  Whatever the file, the finder does not classify it as wholly disabled:
  \<^verbatim>\<open>_is_file_disabled\<close> looks for a block that starts at 0.
\<close>

lemma file_disabled_never: "DisablersFinder_init src = Inr d \<Longrightarrow> file_disabled d = False"
proof (cases src)
  case (File lns)
  let ?st0 = "\<lparr>file_disabled = False, any_disabler = False, rules = [],
              default_factory = \<lparr>lastblock = - 1, lines = 0, blocks = 0\<rparr>,
              set_objs = (\<lambda>a. {}), list_objs = (\<lambda>a. [])\<rparr>"
  assume d: "DisablersFinder_init src = Inr d"
  have "no_zero ?st0" by (simp add: no_zero_def)
  then have "no_zero (end_block (parse_lines ?st0 lns 1) ''all'' n)" for n
    by (simp add: no_zero_parse_lines no_zero_end_block)
  with d show ?thesis
    by (auto simp: File DisablersFinder_init_def Let_def no_zero_not_file_disabled)
next
  case (Fails lns)
  assume "DisablersFinder_init src = Inr d"
  with Fails Fails_flags [of lns d] show ?thesis by (simp add: flags_def)
next
  case (Undecodable lns)
  assume "DisablersFinder_init src = Inr d"
  with Undecodable show ?thesis by (simp add: DisablersFinder_init_def)
qed

subsection \<open>Blocks that stay open\<close>

lemma end_block_all_absent: "\<not> contains st ''all'' \<Longrightarrow> end_block st ''all'' lineno = st"
  by (simp add: end_block_def)


text \<open>
  C1. The code at a file with a standalone \<^verbatim>\<open>disable=ruleA\<close> on line 1 and a
  standalone \<^verbatim>\<open>enable=all\<close> on line 3: \<^verbatim>\<open>_end_block('all', 3)\<close> returns at its first
  test, since no key \<^verbatim>\<open>all\<close> is in the map, before it reaches the cascade. The block
  of \<open>ruleA\<close> is never closed, and a finding of \<open>ruleA\<close> on line 2 is not suppressed.
\<close>

theorem enable_all_does_not_close_ruleA:
  "\<exists>d. DisablersFinder_init (File [''# robocop: disable=ruleA\<newline>'',
                                    ''Log  hello\<newline>'',
                                    ''# robocop: enable=all\<newline>'']) = Inr d
       \<and> fst (is_msg_disabled d \<lparr>line = 2, msg_id = ''ruleA'', name = ''ruleA''\<rparr>) = False"
  by (simp add: model_defs)

text \<open>
  C2. The code at a file whose only directive is a standalone \<^verbatim>\<open>disable=ruleA\<close> on
  line 1: after construction the open-block marker of \<open>ruleA\<close> is still 1 and the
  block list is empty. The end-of-file \<^verbatim>\<open>_end_block('all', 2)\<close> returns at its first
  test.
\<close>

theorem block_left_open_at_end_of_file:
  "\<exists>d. DisablersFinder_init (File [''# robocop: disable=ruleA\<newline>'',
                                    ''Log  hello\<newline>'']) = Inr d
       \<and> rules d = [(''ruleA'', \<lparr>lastblock = 1, lines = 0, blocks = 0\<rparr>)]
       \<and> list_objs d 0 = []"
  by (simp add: model_defs)

text \<open>
  C3. The code at a file whose first line is a standalone \<^verbatim>\<open>disable\<close> of all rules,
  with no \<^verbatim>\<open>enable\<close> after it: the one block of \<^verbatim>\<open>all\<close> is \<open>(1, 2)\<close>, which
  \<^verbatim>\<open>_is_file_disabled\<close> compares with \<open>(0, 2)\<close>; the file is not classified as disabled.
\<close>

theorem first_line_disable_not_file_disabled:
  "\<exists>d. DisablersFinder_init (File [''# robocop: disable\<newline>'',
                                    ''Log  hello\<newline>'']) = Inr d
       \<and> file_disabled d = False
       \<and> list_objs d 0 = [(1, 2)]"
  by (simp add: model_defs)


section \<open>Properties of the report by id\<close>

text \<open>
  C5. The code at a counter of two rules: the width of the name field is the length of
  the name that is greatest in the order of strings, \<^verbatim>\<open>W0508 (line-too-long)\<close> with its
  21 characters, not of the longest name, which has 36. No name is padded, and the two
  counts start in columns 40 and 25.
\<close>

theorem name_field_not_padded_to_longest:
  "get_report (fold (\<lambda>m c. add_message c m)
                 [''W0302 (not-capitalized-keyword-name)'', ''W0508 (line-too-long)'',
                  ''W0302 (not-capitalized-keyword-name)''] [])
   = ''\<newline>Issues by ids:\<newline>W0302 (not-capitalized-keyword-name) : 2\<newline>W0508 (line-too-long) : 1''"
  by (simp add: get_report_def add_message_def ljust_def)

section \<open>Properties of the linter\<close>

subsection \<open>Registration\<close>

lemma register_checker_resolved:
  "register_checker en st c =
     (case register_rules (rules' st) (resolved en c) (rules_map (resolved en c)) of
        Inl e \<Rightarrow> Inl e
      | Inr rs \<Rightarrow> Inr (st\<lparr>rules' := rs, checkers := checkers st @ [resolved en c]\<rparr>))"
  by (cases "any_rule_enabled en c")
     (simp add: register_checker_def resolved_def Let_def cong: sum.case_cong)

lemma rules_map_resolved:
  "rules_map (resolved en c) = map (\<lambda>(nm, rule). (nm, rule\<lparr>enabled := en rule\<rparr>)) (rules_map c)"
  by (simp add: resolved_def any_rule_enabled_def Let_def)

lemma in_rules_map_resolved:
  "(n, r) \<in> set (rules_map c) \<Longrightarrow> (n, r\<lparr>enabled := en r\<rparr>) \<in> set (rules_map (resolved en c))"
  by (force simp: rules_map_resolved)

lemma register_rules_first_conflict:
  assumes "(n0, r0) \<in> set rest" "rs n0 \<noteq> None \<or> rs (rule_id r0) \<noteq> None"
  shows "\<exists>pre n r post rs1 kind key rk prev.
            rest = pre @ (n, r) # post
          \<and> register_rules rs c pre = Inr rs1
          \<and> register_rules rs c rest = Inl (DuplicatedRuleError kind key c prev)
          \<and> ((kind = ''name'' \<and> key = n) \<or> (kind = ''id'' \<and> key = rule_id r \<and> rs1 n = None))
          \<and> rs1 key = Some (rk, prev)"
  using assms
proof (induction rest arbitrary: rs)
  case Nil
  then show ?case by simp
next
  case (Cons a rest)
  obtain n1 r1 where a: "a = (n1, r1)" by (cases a)
  show ?case
  proof (cases "rs n1")
    case (Some v)
    obtain rk prev where v: "v = (rk, prev)" by (cases v)
    have "a # rest = [] @ (n1, r1) # rest" "register_rules rs c [] = Inr rs"
      "register_rules rs c (a # rest) = Inl (DuplicatedRuleError ''name'' n1 c prev)"
      "rs n1 = Some (rk, prev)"
      by (simp_all add: a Some v)
    then show ?thesis by blast
  next
    case None
    show ?thesis
    proof (cases "rs (rule_id r1)")
      case (Some v)
      obtain rk prev where v: "v = (rk, prev)" by (cases v)
      have "a # rest = [] @ (n1, r1) # rest" "register_rules rs c [] = Inr rs"
        "register_rules rs c (a # rest) = Inl (DuplicatedRuleError ''id'' (rule_id r1) c prev)"
        "rs (rule_id r1) = Some (rk, prev)" "rs n1 = None"
        by (simp_all add: a Some v None)
      then show ?thesis by blast
    next
      case none2: None
      let ?rs = "rs(n1 \<mapsto> (r1, c), rule_id r1 \<mapsto> (r1, c))"
      from None none2 Cons.prems have in_rest: "(n0, r0) \<in> set rest"
        by (auto simp: a)
      from Cons.prems(2) have "?rs n0 \<noteq> None \<or> ?rs (rule_id r0) \<noteq> None"
        by auto
      from Cons.IH [OF in_rest this]
      obtain pre n r post rs1 kind key rk prev where
        dec: "rest = pre @ (n, r) # post"
        and pre: "register_rules ?rs c pre = Inr rs1"
        and res: "register_rules ?rs c rest = Inl (DuplicatedRuleError kind key c prev)"
        and kind: "(kind = ''name'' \<and> key = n) \<or> (kind = ''id'' \<and> key = rule_id r \<and> rs1 n = None)"
        and held: "rs1 key = Some (rk, prev)"
        by blast
      have "a # rest = (a # pre) @ (n, r) # post"
        by (simp add: dec)
      moreover have "register_rules rs c (a # pre) = Inr rs1"
        by (simp add: a None none2 pre)
      moreover have "register_rules rs c (a # rest) = Inl (DuplicatedRuleError kind key c prev)"
        by (simp add: a None none2 res)
      ultimately show ?thesis
        using kind held by blast
    qed
  qed
qed

lemma register_rules_success:
  assumes "register_rules rs c rest = Inr rs1"
  shows "(\<forall>(n, r) \<in> set rest. rs1 n = Some (r, c) \<and> rs1 (rule_id r) = Some (r, c))
         \<and> (\<forall>k. rs k \<noteq> None \<longrightarrow> rs1 k = rs k)"
  using assms
proof (induction rest arbitrary: rs)
  case Nil
  then show ?case by simp
next
  case (Cons a rest)
  obtain n1 r1 where a: "a = (n1, r1)" by (cases a)
  let ?rs = "rs(n1 \<mapsto> (r1, c), rule_id r1 \<mapsto> (r1, c))"
  from Cons.prems have none: "rs n1 = None" "rs (rule_id r1) = None"
    and rec: "register_rules ?rs c rest = Inr rs1"
    by (auto simp: a split: option.splits)
  from Cons.IH [OF rec]
  have ih1: "\<forall>(n, r) \<in> set rest. rs1 n = Some (r, c) \<and> rs1 (rule_id r) = Some (r, c)"
    and ih2: "\<forall>k. ?rs k \<noteq> None \<longrightarrow> rs1 k = ?rs k"
    by blast+
  have "rs1 n1 = Some (r1, c)" "rs1 (rule_id r1) = Some (r1, c)"
    using ih2 by (auto split: if_splits)
  moreover have "\<forall>k. rs k \<noteq> None \<longrightarrow> rs1 k = rs k"
    using ih2 none by (metis fun_upd_apply)
  ultimately show ?case
    using ih1 by (simp add: a)
qed

lemma register_rules_holder:
  assumes "register_rules rs c rest = Inr rs1"
  shows "rs1 k = rs k \<or> (rs k = None \<and> (\<exists>r. rs1 k = Some (r, c)))"
  using assms
proof (induction rest arbitrary: rs)
  case Nil
  then show ?case by simp
next
  case (Cons a rest)
  obtain n1 r1 where a: "a = (n1, r1)" by (cases a)
  let ?rs = "rs(n1 \<mapsto> (r1, c), rule_id r1 \<mapsto> (r1, c))"
  from Cons.prems have none: "rs n1 = None" "rs (rule_id r1) = None"
    and rec: "register_rules ?rs c rest = Inr rs1"
    by (auto simp: a split: option.splits)
  from Cons.IH [OF rec] have "rs1 k = ?rs k \<or> (?rs k = None \<and> (\<exists>r. rs1 k = Some (r, c)))" .
  with none show ?case
    by (auto split: if_splits)
qed

text \<open>
  C7. (1) If a rule of the checker being registered has its name or its id in the
  registry, \<^verbatim>\<open>register_checker\<close> raises \<^verbatim>\<open>DuplicatedRuleError\<close> at the first rule
  \<open>(n, r)\<close> of the checker that meets a key of the registry as it is then, the rules
  \<open>pre\<close> before it having been registered: the error is for the name \<open>n\<close> when the
  name is there, else for the id of \<open>r\<close>, and the checker it names as the previous one
  is the checker that the registry holds for that key. That is the checker of the
  registry from before the call, unless the key was not there and an earlier rule of the
  same call has put it. (2) When a registration succeeds, every rule of the stored checker
  is in the registry under its name and under its id, with that checker. (3) So when a
  checker has been registered, registering a checker that declares a rule of the same
  name raises \<^verbatim>\<open>DuplicatedRuleError\<close>; (4) when that rule is the first of the second
  checker, the error is for the name and names the first checker.
\<close>

theorem register_checker_duplicates:
  "((n0, r0) \<in> set (rules_map c2) \<longrightarrow>
    rules' st1 n0 \<noteq> None \<or> rules' st1 (rule_id r0) \<noteq> None \<longrightarrow>
      (\<exists>pre n r post rs1 kind key rk prev.
          rules_map (resolved en c2) = pre @ (n, r) # post
        \<and> register_rules (rules' st1) (resolved en c2) pre = Inr rs1
        \<and> register_checker en st1 c2 = Inl (DuplicatedRuleError kind key (resolved en c2) prev)
        \<and> ((kind = ''name'' \<and> key = n) \<or> (kind = ''id'' \<and> key = rule_id r \<and> rs1 n = None))
        \<and> rs1 key = Some (rk, prev)
        \<and> (rules' st1 key = Some (rk, prev)
             \<or> (rules' st1 key = None \<and> prev = resolved en c2))))
   \<and> (register_checker en st c1 = Inr st1 \<longrightarrow>
         (\<forall>(n, r) \<in> set (rules_map (resolved en c1)).
             rules' st1 n = Some (r, resolved en c1)
             \<and> rules' st1 (rule_id r) = Some (r, resolved en c1)))
   \<and> (register_checker en st c1 = Inr st1 \<longrightarrow>
         n \<in> fst ` set (rules_map c1) \<longrightarrow> n \<in> fst ` set (rules_map c2) \<longrightarrow>
         (\<exists>kind key rk prev.
             register_checker en st1 c2 = Inl (DuplicatedRuleError kind key (resolved en c2) prev)
           \<and> (rules' st1 key = Some (rk, prev)
                \<or> (rules' st1 key = None \<and> prev = resolved en c2))))
   \<and> (register_checker en st c1 = Inr st1 \<longrightarrow>
         n \<in> fst ` set (rules_map c1) \<longrightarrow> rules_map c2 = (n, r2) # rest2 \<longrightarrow>
         register_checker en st1 c2
           = Inl (DuplicatedRuleError ''name'' n (resolved en c2) (resolved en c1)))"
proof -
  have conflict: "\<exists>pre n r post rs1 kind key rk prev.
          rules_map (resolved en c2) = pre @ (n, r) # post
        \<and> register_rules (rules' st1) (resolved en c2) pre = Inr rs1
        \<and> register_checker en st1 c2 = Inl (DuplicatedRuleError kind key (resolved en c2) prev)
        \<and> ((kind = ''name'' \<and> key = n) \<or> (kind = ''id'' \<and> key = rule_id r \<and> rs1 n = None))
        \<and> rs1 key = Some (rk, prev)
        \<and> (rules' st1 key = Some (rk, prev)
             \<or> (rules' st1 key = None \<and> prev = resolved en c2))"
    if mem: "(n0, r0) \<in> set (rules_map c2)"
      and pres: "rules' st1 n0 \<noteq> None \<or> rules' st1 (rule_id r0) \<noteq> None" for n0 r0
  proof -
    from mem pres have "(n0, r0\<lparr>enabled := en r0\<rparr>) \<in> set (rules_map (resolved en c2))"
      and "rules' st1 n0 \<noteq> None \<or> rules' st1 (rule_id (r0\<lparr>enabled := en r0\<rparr>)) \<noteq> None"
      by (simp_all add: in_rules_map_resolved)
    from register_rules_first_conflict [OF this, of "resolved en c2"]
    obtain pre n r post rs1 kind key rk prev where
      dec: "rules_map (resolved en c2) = pre @ (n, r) # post"
      and pre: "register_rules (rules' st1) (resolved en c2) pre = Inr rs1"
      and res: "register_rules (rules' st1) (resolved en c2) (rules_map (resolved en c2))
                 = Inl (DuplicatedRuleError kind key (resolved en c2) prev)"
      and kind: "(kind = ''name'' \<and> key = n) \<or> (kind = ''id'' \<and> key = rule_id r \<and> rs1 n = None)"
      and held: "rs1 key = Some (rk, prev)"
      by blast
    from register_rules_holder [OF pre, of key] held
    have orig: "rules' st1 key = Some (rk, prev) \<or> (rules' st1 key = None \<and> prev = resolved en c2)"
      by auto
    from res have "register_checker en st1 c2 = Inl (DuplicatedRuleError kind key (resolved en c2) prev)"
      by (simp add: register_checker_resolved)
    with dec pre kind held orig show ?thesis by blast
  qed
  have stored: "\<forall>(n, r) \<in> set (rules_map (resolved en c1)).
             rules' st1 n = Some (r, resolved en c1)
             \<and> rules' st1 (rule_id r) = Some (r, resolved en c1)"
    if ok: "register_checker en st c1 = Inr st1"
  proof -
    from ok have "register_rules (rules' st) (resolved en c1) (rules_map (resolved en c1)) = Inr (rules' st1)"
      by (auto simp: register_checker_resolved split: sum.splits)
    from register_rules_success [OF this] show ?thesis by blast
  qed
  have present: "\<exists>ra. rules' st1 n = Some (ra, resolved en c1)"
    if ok: "register_checker en st c1 = Inr st1" and n1: "n \<in> fst ` set (rules_map c1)"
  proof -
    from n1 obtain ra where "(n, ra) \<in> set (rules_map c1)" by auto
    then have "(n, ra\<lparr>enabled := en ra\<rparr>) \<in> set (rules_map (resolved en c1))"
      by (rule in_rules_map_resolved)
    with stored [OF ok] show ?thesis by auto
  qed
  have same_name: "\<exists>kind key rk prev.
             register_checker en st1 c2 = Inl (DuplicatedRuleError kind key (resolved en c2) prev)
           \<and> (rules' st1 key = Some (rk, prev)
                \<or> (rules' st1 key = None \<and> prev = resolved en c2))"
    if ok: "register_checker en st c1 = Inr st1" and n1: "n \<in> fst ` set (rules_map c1)"
      and n2: "n \<in> fst ` set (rules_map c2)"
  proof -
    from n2 obtain rb where mem: "(n, rb) \<in> set (rules_map c2)" by auto
    from present [OF ok n1] have "rules' st1 n \<noteq> None \<or> rules' st1 (rule_id rb) \<noteq> None" by auto
    from conflict [OF mem this] show ?thesis by blast
  qed
  have first: "register_checker en st1 c2
           = Inl (DuplicatedRuleError ''name'' n (resolved en c2) (resolved en c1))"
    if ok: "register_checker en st c1 = Inr st1" and n1: "n \<in> fst ` set (rules_map c1)"
      and c2: "rules_map c2 = (n, r2) # rest2"
  proof -
    from present [OF ok n1] obtain ra where "rules' st1 n = Some (ra, resolved en c1)" ..
    then show ?thesis
      by (simp add: register_checker_resolved rules_map_resolved c2)
  qed
  show ?thesis
  proof (intro conjI impI)
    assume "(n0, r0) \<in> set (rules_map c2)"
      and "rules' st1 n0 \<noteq> None \<or> rules' st1 (rule_id r0) \<noteq> None"
    then show "\<exists>pre n r post rs1 kind key rk prev.
          rules_map (resolved en c2) = pre @ (n, r) # post
        \<and> register_rules (rules' st1) (resolved en c2) pre = Inr rs1
        \<and> register_checker en st1 c2 = Inl (DuplicatedRuleError kind key (resolved en c2) prev)
        \<and> ((kind = ''name'' \<and> key = n) \<or> (kind = ''id'' \<and> key = rule_id r \<and> rs1 n = None))
        \<and> rs1 key = Some (rk, prev)
        \<and> (rules' st1 key = Some (rk, prev)
             \<or> (rules' st1 key = None \<and> prev = resolved en c2))"
      by (rule conflict)
  next
    assume "register_checker en st c1 = Inr st1"
    then show "\<forall>(n, r) \<in> set (rules_map (resolved en c1)).
             rules' st1 n = Some (r, resolved en c1)
             \<and> rules' st1 (rule_id r) = Some (r, resolved en c1)"
      by (rule stored)
  next
    assume "register_checker en st c1 = Inr st1" "n \<in> fst ` set (rules_map c1)"
      "n \<in> fst ` set (rules_map c2)"
    then show "\<exists>kind key rk prev.
             register_checker en st1 c2 = Inl (DuplicatedRuleError kind key (resolved en c2) prev)
           \<and> (rules' st1 key = Some (rk, prev)
                \<or> (rules' st1 key = None \<and> prev = resolved en c2))"
      by (rule same_name)
  next
    assume "register_checker en st c1 = Inr st1" "n \<in> fst ` set (rules_map c1)"
      "rules_map c2 = (n, r2) # rest2"
    then show "register_checker en st1 c2
           = Inl (DuplicatedRuleError ''name'' n (resolved en c2) (resolved en c1))"
      by (rule first)
  qed
qed


theorem register_checker_duplicates_witness:
  "register_checker (\<lambda>r. True) empty_linter (checker_with ''LengthChecker'' (rule_named ''0508'' ''line-too-long''))
     = Inr one_checker
   \<and> register_checker (\<lambda>r. True) one_checker (checker_with ''OtherChecker'' (rule_named ''0999'' ''line-too-long''))
     = Inl (DuplicatedRuleError ''name'' ''line-too-long''
              (checker_with ''OtherChecker'' (rule_named ''0999'' ''line-too-long''))
              (checker_with ''LengthChecker'' (rule_named ''0508'' ''line-too-long'')))
   \<and> rules' one_checker ''line-too-long''
     = Some (rule_named ''0508'' ''line-too-long'',
             checker_with ''LengthChecker'' (rule_named ''0508'' ''line-too-long''))
   \<and> rules' one_checker ''0508''
     = Some (rule_named ''0508'' ''line-too-long'',
             checker_with ''LengthChecker'' (rule_named ''0508'' ''line-too-long''))"
proof -
  let ?r1 = "rule_named ''0508'' ''line-too-long''"
  let ?r2 = "rule_named ''0999'' ''line-too-long''"
  let ?c1 = "checker_with ''LengthChecker'' ?r1"
  let ?c2 = "checker_with ''OtherChecker'' ?r2"
  have r1: "resolved (\<lambda>r. True) ?c1 = ?c1" and r2: "resolved (\<lambda>r. True) ?c2 = ?c2"
    by (simp_all add: resolved_def any_rule_enabled_def checker_with_def rule_named_def)
  have ok: "register_checker (\<lambda>r. True) empty_linter ?c1 = Inr one_checker"
    by (simp add: register_checker_def any_rule_enabled_def checker_with_def rule_named_def
          empty_linter_def one_checker_def)
  have mem: "(''line-too-long'', ?r2) \<in> set (rules_map ?c2)"
    by (simp add: checker_with_def rule_named_def)
  have conflict: "rules' one_checker ''line-too-long'' \<noteq> None
                  \<or> rules' one_checker (rule_id ?r2) \<noteq> None"
    by (simp add: one_checker_def)
  have n1: "''line-too-long'' \<in> fst ` set (rules_map ?c1)"
    and n2: "''line-too-long'' \<in> fst ` set (rules_map ?c2)"
    and first: "rules_map ?c2 = (''line-too-long'', ?r2) # []"
    by (simp_all add: checker_with_def rule_named_def)
  have maps: "rules_map ?c1 = [(''line-too-long'', ?r1)]" "rule_id ?r1 = ''0508''"
    by (simp_all add: checker_with_def rule_named_def)
  note inst = register_checker_duplicates
         [of "''line-too-long''" ?r2 ?c2 one_checker "\<lambda>r. True" empty_linter ?c1
             "''line-too-long''" ?r2 "[]"]
  from inst mem conflict have "\<exists>pre n r post rs1 kind key rk prev.
          rules_map ?c2 = pre @ (n, r) # post
        \<and> register_rules (rules' one_checker) ?c2 pre = Inr rs1
        \<and> register_checker (\<lambda>r. True) one_checker ?c2 = Inl (DuplicatedRuleError kind key ?c2 prev)
        \<and> ((kind = ''name'' \<and> key = n) \<or> (kind = ''id'' \<and> key = rule_id r \<and> rs1 n = None))
        \<and> rs1 key = Some (rk, prev)
        \<and> (rules' one_checker key = Some (rk, prev) \<or> (rules' one_checker key = None \<and> prev = ?c2))"
    unfolding r2 by blast
  from inst ok n1 first
  have dup: "register_checker (\<lambda>r. True) one_checker ?c2
        = Inl (DuplicatedRuleError ''name'' ''line-too-long'' ?c2 ?c1)"
    unfolding r1 r2 by blast
  from inst ok have "\<forall>(n, r) \<in> set (rules_map ?c1).
             rules' one_checker n = Some (r, ?c1) \<and> rules' one_checker (rule_id r) = Some (r, ?c1)"
    unfolding r1 by blast
  then have ins: "rules' one_checker ''line-too-long'' = Some (?r1, ?c1)"
    "rules' one_checker ''0508'' = Some (?r1, ?c1)"
    by (simp_all add: maps)
  from ok dup ins show ?thesis by blast
qed

subsection \<open>Configuration\<close>

lemma length_split: "length (split c s) = Suc (count_list s c)"
  by (induction s) (auto split: list.splits)

lemma configure_reports_error:
  "configure_reports rs t p v vs = Inl e \<Longrightarrow> \<exists>c. e = AttributeError c ''configure''"
proof (induction rs arbitrary: e)
  case Nil
  then show ?case by simp
next
  case (Cons r rs)
  then show ?case
    by (cases r) (auto split: if_splits sum.splits)
qed

text \<open>
  When no hook raises \<^verbatim>\<open>ConfigGeneralError\<close> itself, \<^verbatim>\<open>configure\<close> raises it in exactly
  three cases: fewer than two colons; a target that is neither a key of the registry
  nor the name of a registered report; a rule as target with a parameter that is
  neither \<^verbatim>\<open>severity\<close> nor one that the rule declares.
\<close>

lemma configure_ConfigGeneralError_iff:
  assumes sev: "\<And>m v msg. change_severity h m v \<noteq> Inl (ConfigGeneralError msg)"
    and conv: "\<And>m p nm attr cv v msg. get_configurable h m p = Some (nm, attr, cv) \<Longrightarrow> cv v \<noteq> Inl (ConfigGeneralError msg)"
    and cfg: "\<And>c a v msg. checker_configure h c a v \<noteq> Some (ConfigGeneralError msg)"
  shows "(\<exists>msg. configure h st config = Inl (ConfigGeneralError msg)) \<longleftrightarrow>
     (count_list config CHR '':'' < 2
      \<or> (2 \<le> count_list config CHR '':''
          \<and> (case rules' st (split CHR '':'' config ! 0) of
                None \<Rightarrow> \<not> list_ex (\<lambda>report. split CHR '':'' config ! 0 = report_name report) (reports st)
              | Some (m, chk) \<Rightarrow> split CHR '':'' config ! 1 \<noteq> ''severity''
                                \<and> get_configurable h m (split CHR '':'' config ! 1) = None)))"
proof (cases "count_list config CHR '':'' < 2")
  case True
  then show ?thesis by (simp add: configure_def)
next
  case False
  then have "3 \<le> length (split CHR '':'' config)"
    by (simp add: length_split)
  then obtain t p v vs where sp: "split CHR '':'' config = t # p # v # vs"
    by (cases "split CHR '':'' config" rule: list.exhaust; simp; rename_tac a l; case_tac l; simp; rename_tac b l2; case_tac l2; simp)
  show ?thesis
  proof (cases "rules' st t")
    case None
    show ?thesis
    proof (cases "list_ex (\<lambda>report. t = report_name report) (reports st)")
      case True
      with None False sp show ?thesis
        by (auto simp: configure_def split: sum.splits dest: configure_reports_error)
    next
      case no: False
      with None False sp show ?thesis
        by (simp add: configure_def)
    qed
  next
    case (Some mc)
    obtain m chk where mc: "mc = (m, chk)" by (cases mc)
    show ?thesis
    proof (cases "p = ''severity''")
      case True
      with Some mc False sp sev [of m v] show ?thesis
        by (auto simp: configure_def split: sum.splits)
    next
      case ns: False
      show ?thesis
      proof (cases "get_configurable h m p")
        case None
        with Some mc False sp ns show ?thesis
          by (simp add: configure_def)
      next
        case (Some trip)
        obtain nm attr cv where trip: "trip = (nm, attr, cv)" by (cases trip)
        from conv [of m p nm attr cv v] cfg [of chk attr] Some trip \<open>rules' st t = Some mc\<close> mc False sp ns
        show ?thesis
          by (auto simp: configure_def split: sum.splits option.splits)
      qed
    qed
  qed
qed


text \<open>
  C6. The code at the directive \<^verbatim>\<open>rules_by_id:param:value\<close>, when the report by id is
  registered and no rule has that key: the directive has two colons and its target is
  the name of a registered report, so no \<^verbatim>\<open>ConfigGeneralError\<close> is raised; the call of
  the report's \<^verbatim>\<open>configure\<close> raises \<^verbatim>\<open>AttributeError\<close>, whatever the hooks of rules and
  checkers are.
\<close>

theorem configure_report_raises_attribute_error:
  "configure h \<lparr>checkers = [], rules' = Map.empty, reports = [RulesByIdReport []],
                 disabler = None, out = []\<rparr> ''rules_by_id:param:value''
   = Inl (AttributeError ''RulesByIdReport'' ''configure'')"
  by (simp add: configure_def)

subsection \<open>The corrective re-scan\<close>

text \<open>
  C4. The code at the run on \<^verbatim>\<open>a.robot\<close> and \<^verbatim>\<open>b.robot\<close>. The finder of \<^verbatim>\<open>a.robot\<close>
  disables the parsing-error message on its line 1. The first pass ends with the
  finder of \<^verbatim>\<open>b.robot\<close> registered and with \<^verbatim>\<open>a.robot\<close> of type resource, scanned as
  general; \<^verbatim>\<open>run_checks_on_files_with_type_changed\<close> scans \<^verbatim>\<open>a.robot\<close> again without
  registering its disablers. When the message reaches \<^verbatim>\<open>report\<close>, the call of
  \<^verbatim>\<open>is_rule_disabled\<close> raises \<^verbatim>\<open>AttributeError\<close>, and the run ends with that exception:
  no finder is asked whether the message is suppressed.
\<close>

theorem rescan_report_raises_attribute_error:
  "(\<exists>d. DisablersFinder_init (read_file two_files ''a.robot'') = Inr d
        \<and> fst (is_msg_disabled d \<lparr>line = line' parsing_error, msg_id = rule_id parsing_error,
                                   name = name' parsing_error\<rparr>))
   \<and> (\<exists>st files d.
          run_checks_loop two_files linter fresh_files [] [''a.robot'', ''b.robot'']
            = Inr (st, files, [''a.robot'', ''b.robot''])
        \<and> DisablersFinder_init (read_file two_files ''b.robot'') = Inr d
        \<and> disabler st = Some d
        \<and> map_of files ''a.robot'' = Some \<lparr>type' = RESOURCE, scanned_with_type = GENERAL\<rparr>)
   \<and> run_checks two_files linter [''a.robot'', ''b.robot'']
       = Inl (AttributeError ''DisablersFinder'' ''is_rule_disabled'')"
proof (intro conjI)
  show "\<exists>d. DisablersFinder_init (read_file two_files ''a.robot'') = Inr d
        \<and> fst (is_msg_disabled d \<lparr>line = line' parsing_error, msg_id = rule_id parsing_error,
                                   name = name' parsing_error\<rparr>)"
    by (simp add: two_files_def reading_def parsing_error_def model_defs)
  show "\<exists>st files d.
          run_checks_loop two_files linter fresh_files [] [''a.robot'', ''b.robot'']
            = Inr (st, files, [''a.robot'', ''b.robot''])
        \<and> DisablersFinder_init (read_file two_files ''b.robot'') = Inr d
        \<and> disabler st = Some d
        \<and> map_of files ''a.robot'' = Some \<lparr>type' = RESOURCE, scanned_with_type = GENERAL\<rparr>"
    by (simp add: two_files_def reading_def linter_def parsing_error_def fresh_files_def
          register_disablers_def recognize_file_type_def visit_def set_type_def path_name_def
          path_suffix_def lower_def model_defs)
  show "run_checks two_files linter [''a.robot'', ''b.robot'']
       = Inl (AttributeError ''DisablersFinder'' ''is_rule_disabled'')"
    by (simp add: two_files_def reading_def linter_def parsing_error_def run_checks_def
          register_disablers_def recognize_file_type_def visit_def set_type_def path_name_def
          path_suffix_def lower_def report_def is_rule_disabled_def model_defs)
qed

end
